theory Spec2Isabelle
  imports Main "HOL-Library.Sublist" "HOL-Library.List_Lexorder" "HOL-Library.Char_ord"
begin

section \<open>The script generate_json.py\<close>

text \<open>
  The repository is one Python script, \<^verbatim>\<open>.github/scripts/generate_json.py\<close>.  It reads
  a root markdown document and the markdown files of \<^verbatim>\<open>docs/guides\<close>, and writes a tree
  of JSON files, an \<^verbatim>\<open>index.html\<close> and a \<^verbatim>\<open>manifest.json\<close>.  The theory embeds the
  script function by function: the string and regular-expression operations it takes from
  the Python library are written out as recursive functions, exceptions are values, and
  the file system is an environment that is read and a list of effects that is produced.
\<close>

subsection \<open>Strings\<close>

text \<open>
  A Python string is a \<^typ>\<open>string\<close>; a character stands for a code point below 256.
  On that range \<^verbatim>\<open>str.lower\<close> maps \<open>A..Z\<close> and the Latin-1 capitals (192 to 222 except
  the multiplication sign 215) to the character 32 places further on, and
  \<^verbatim>\<open>str.capitalize\<close> upper-cases the first character and lower-cases the rest.  The script
  capitalizes guide types only, which are ASCII.
\<close>

definition lower_char :: "char \<Rightarrow> char" where
  "lower_char c =
     (let n = (of_char c :: nat)
      in if (65 \<le> n \<and> n \<le> 90) \<or> (192 \<le> n \<and> n \<le> 222 \<and> n \<noteq> 215)
         then char_of (n + 32) else c)"

definition py_lower :: "string \<Rightarrow> string" where
  "py_lower s = map lower_char s"

definition upper_char :: "char \<Rightarrow> char" where
  "upper_char c =
     (let n = (of_char c :: nat)
      in if (97 \<le> n \<and> n \<le> 122) \<or> (224 \<le> n \<and> n \<le> 254 \<and> n \<noteq> 247)
         then char_of (n - 32) else c)"

definition py_capitalize :: "string \<Rightarrow> string" where
  "py_capitalize s = (case s of [] \<Rightarrow> [] | c # cs \<Rightarrow> upper_char c # py_lower cs)"

text \<open>
  \<^verbatim>\<open>needle in hay\<close> tries every start position from the left; \<^verbatim>\<open>hay.find(sub)\<close>
  returns the first position where \<open>sub\<close> starts, or \<open>-1\<close>.
\<close>

fun py_in :: "string \<Rightarrow> string \<Rightarrow> bool" where
  "py_in needle [] = (needle = [])"
| "py_in needle (c # cs) = (prefix needle (c # cs) \<or> py_in needle cs)"

fun py_find :: "string \<Rightarrow> string \<Rightarrow> int" where
  "py_find sub [] = (if sub = [] then 0 else - 1)"
| "py_find sub (c # cs) =
     (if prefix sub (c # cs) then 0
      else (let i = py_find sub cs in if i = - 1 then - 1 else i + 1))"

text \<open>
  \<^verbatim>\<open>s.replace(old, new)\<close> replaces the occurrences of \<open>old\<close> from the left, continuing
  after each replaced occurrence; for an empty \<open>old\<close> it puts \<open>new\<close> before every
  character and at the end.  \<^verbatim>\<open>s.split(sep)\<close> for a one-character separator never returns
  an empty list.
\<close>

function py_replace :: "string \<Rightarrow> string \<Rightarrow> string \<Rightarrow> string" where
  "py_replace old new [] = (if old = [] then new else [])"
| "py_replace old new (c # cs) =
     (if old = [] then new @ c # py_replace old new cs
      else if prefix old (c # cs) then new @ py_replace old new (drop (length old) (c # cs))
      else c # py_replace old new cs)"
  by pat_completeness auto
termination
  by (relation "measure (\<lambda>(old, new, s). length s)") auto

fun py_split :: "char \<Rightarrow> string \<Rightarrow> string list" where
  "py_split sep [] = [[]]"
| "py_split sep (c # cs) =
     (if c = sep then [] # py_split sep cs
      else (case py_split sep cs of
              p # ps \<Rightarrow> (c # p) # ps
            | [] \<Rightarrow> [[c]]))"

text \<open>
  \<^verbatim>\<open>os.path.basename\<close> is the part after the last slash; \<^verbatim>\<open>os.path.join\<close> restarts at
  a component that begins with a slash and otherwise inserts one slash where none ends the
  path so far; \<^verbatim>\<open>os.path.dirname\<close> is the part up to the last slash, without trailing
  slashes unless it consists of slashes only.
\<close>

definition basename :: "string \<Rightarrow> string" where
  "basename p = rev (takeWhile (\<lambda>c. c \<noteq> CHR ''/'') (rev p))"

definition py_join :: "string \<Rightarrow> string \<Rightarrow> string" where
  "py_join a b =
     (if prefix ''/'' b then b
      else if a = [] \<or> suffix ''/'' a then a @ b
      else a @ ''/'' @ b)"

definition dirname :: "string \<Rightarrow> string" where
  "dirname p =
     (let head = take (length p - length (basename p)) p
      in if head \<noteq> [] \<and> \<not> list_all (\<lambda>c. c = CHR ''/'') head
         then rev (dropWhile (\<lambda>c. c = CHR ''/'') (rev head))
         else head)"

subsection \<open>Regular expressions\<close>

text \<open>
  \<^verbatim>\<open>re.sub(r'<!--.*?-->', '', content, flags=re.DOTALL)\<close> (lines 70 and 117).  At a
  position where \<open><!--\<close> starts, the lazy \<open>.*?\<close> extends one character at a time (any
  character, under \<open>DOTALL\<close>) until \<open>-->\<close> follows; the match is deleted and the scan
  goes on behind it.  Where no match starts, the character is kept.
\<close>

fun find_close :: "string \<Rightarrow> string option" where
  "find_close [] = None"
| "find_close (c # cs) =
     (if prefix ''-->'' (c # cs) then Some (drop 3 (c # cs)) else find_close cs)"

definition match_comment :: "string \<Rightarrow> string option" where
  "match_comment s = (if prefix ''<!--'' s then find_close (drop 4 s) else None)"

lemma find_close_length: "find_close s = Some r \<Longrightarrow> length r < length s"
  by (induction s) (auto split: if_splits)

lemma match_comment_length: "match_comment s = Some r \<Longrightarrow> length r < length s"
  by (auto simp: match_comment_def split: if_splits dest!: find_close_length)

function strip_comments :: "string \<Rightarrow> string" where
  "strip_comments [] = []"
| "strip_comments (c # cs) =
     (case match_comment (c # cs) of
        Some rest \<Rightarrow> strip_comments rest
      | None \<Rightarrow> c # strip_comments cs)"
  by pat_completeness auto
termination
  by (relation "measure length") (auto dest: match_comment_length)

text \<open>
  \<^verbatim>\<open>re.finditer(r'\[(.*?)\]\((.*?)\)', content)\<close> (lines 28 and 29).  After \<open>[\<close>, the
  first group extends lazily over characters other than the newline until \<open>](\<close> follows
  and the rest matches; the second group extends lazily, again without newlines, until
  \<open>)\<close> follows.  When the rest fails behind a \<open>](\<close>, the first group is extended further,
  as the backtracking matcher does.  \<open>match_link\<close> returns the two groups and the text
  behind the match; \<open>find_links\<close> lists the groups of the successive matches.
\<close>

fun match_path :: "string \<Rightarrow> (string \<times> string) option" where
  "match_path [] = None"
| "match_path (c # cs) =
     (if c = CHR '')'' then Some ([], cs)
      else if c = CHR 0x0A then None
      else map_option (\<lambda>(p, rest). (c # p, rest)) (match_path cs))"

fun match_name :: "string \<Rightarrow> (string \<times> string \<times> string) option" where
  "match_name [] = None"
| "match_name (c # cs) =
     (case (if prefix '']('' (c # cs) then match_path (drop 2 (c # cs)) else None) of
        Some (p, rest) \<Rightarrow> Some ([], p, rest)
      | None \<Rightarrow>
          if c = CHR 0x0A then None
          else map_option (\<lambda>(n, p, rest). (c # n, p, rest)) (match_name cs))"

definition match_link :: "string \<Rightarrow> (string \<times> string \<times> string) option" where
  "match_link s = (case s of [] \<Rightarrow> None | c # cs \<Rightarrow> if c = CHR ''['' then match_name cs else None)"

lemma match_path_length: "match_path s = Some (p, r) \<Longrightarrow> length r < length s"
  by (induction s arbitrary: p) (auto split: if_splits)

lemma match_name_length: "match_name s = Some (n, p, r) \<Longrightarrow> length r < length s"
proof (induction s arbitrary: n)
  case Nil then show ?case by simp
next
  case (Cons c cs)
  then show ?case
    by (auto split: if_splits option.splits dest!: match_path_length)
qed

lemma match_link_length: "match_link s = Some (n, p, r) \<Longrightarrow> length r < length s"
  by (auto simp: match_link_def split: list.splits if_splits dest!: match_name_length)

function find_links :: "string \<Rightarrow> (string \<times> string) list" where
  "find_links [] = []"
| "find_links (c # cs) =
     (case match_link (c # cs) of
        Some (n, p, rest) \<Rightarrow> (n, p) # find_links rest
      | None \<Rightarrow> find_links cs)"
  by pat_completeness auto
termination
  by (relation "measure length") (auto dest: match_link_length)

text \<open>
  \<^verbatim>\<open>re.search(r'^# (.*?)$', content, re.MULTILINE)\<close> (line 73): the first line that starts
  with \<open># \<close>; the group is the rest of that line.  The flag tells whether the position is
  the start of a line.
\<close>

fun search_title :: "bool \<Rightarrow> string \<Rightarrow> string option" where
  "search_title bol [] = None"
| "search_title bol (c # cs) =
     (if bol \<and> prefix ''# '' (c # cs)
      then Some (takeWhile (\<lambda>x. x \<noteq> CHR 0x0A) (drop 2 (c # cs)))
      else search_title (c = CHR 0x0A) cs)"

text \<open>
  \<^verbatim>\<open>re.sub(r'\s+//.*$', '', template_content, flags=re.MULTILINE)\<close> (line 219): a run of
  white space (newlines included) followed by \<open>//\<close> is deleted together with the rest of
  that line.  \<open>\s\<close> matches the code points 9 to 13, 28 to 32, 133 and 160 of the range.
\<close>

definition is_space :: "char \<Rightarrow> bool" where
  "is_space c =
     (let n = (of_char c :: nat)
      in (9 \<le> n \<and> n \<le> 13) \<or> (28 \<le> n \<and> n \<le> 32) \<or> n = 133 \<or> n = 160)"

function strip_line_comments :: "string \<Rightarrow> string" where
  "strip_line_comments [] = []"
| "strip_line_comments (c # cs) =
     (if is_space c \<and> prefix ''//'' (dropWhile is_space cs)
      then strip_line_comments
             (dropWhile (\<lambda>x. x \<noteq> CHR 0x0A) (drop 2 (dropWhile is_space cs)))
      else c # strip_line_comments cs)"
  by pat_completeness auto
termination
proof (relation "measure length")
  fix c :: char and cs :: string
  have "length (dropWhile (\<lambda>x. x \<noteq> CHR 0x0A) (drop 2 (dropWhile is_space cs)))
          \<le> length (drop 2 (dropWhile is_space cs))"
    by (rule length_dropWhile_le)
  also have "\<dots> \<le> length (dropWhile is_space cs)" by simp
  also have "\<dots> \<le> length cs" by (rule length_dropWhile_le)
  finally show "(dropWhile (\<lambda>x. x \<noteq> CHR 0x0A) (drop 2 (dropWhile is_space cs)), c # cs)
      \<in> measure length" by simp
qed simp_all

subsection \<open>infer_guide_type and extract_references (lines 14 to 61)\<close>

text \<open>
  The type of a guide is a string, decided by an \<^verbatim>\<open>if\<close>/\<^verbatim>\<open>elif\<close> chain on the lower-cased
  path.
\<close>

definition infer_guide_type :: "string \<Rightarrow> string" where
  "infer_guide_type path =
     (if py_in ''python'' (py_lower path) then ''language''
      else if py_in ''make'' (py_lower path) then ''pattern''
      else if py_in ''postgresql'' (py_lower path) \<or> py_in ''sql'' (py_lower path)
        then ''platform''
      else if py_in ''shell'' (py_lower path) then ''language''
      else ''other'')"

text \<open>
  \<open>extract_references\<close> visits the matches in order and appends a record for each match
  whose path contains \<open>guides\<close> and ends with \<open>.md\<close>.  The loop is \<open>extract_loop\<close>, with
  the list built so far as its last argument; \<open>base_url\<close> has its default value.
\<close>

record reference =
  ref_name :: string
  ref_path :: string
  ref_type :: string
  ref_apiUrl :: string

fun extract_loop :: "string \<Rightarrow> (string \<times> string) list \<Rightarrow> reference list \<Rightarrow> reference list" where
  "extract_loop base_url [] references = references"
| "extract_loop base_url ((name, path) # guide_links) references =
     (if py_in ''guides'' path \<and> suffix ''.md'' path then
        (let guide_type = infer_guide_type path;
             filename = py_replace ''.md'' ''.json'' (basename path);
             api_url = base_url @ ''/'' @ guide_type @ ''s/'' @ filename
         in extract_loop base_url guide_links
              (references @ [\<lparr>ref_name = name, ref_path = path,
                               ref_type = guide_type, ref_apiUrl = api_url\<rparr>]))
      else extract_loop base_url guide_links references)"

definition extract_references :: "string \<Rightarrow> reference list" where
  "extract_references content = extract_loop ''api/guides'' (find_links content) []"

subsection \<open>process_guide_markdown (lines 63 to 82)\<close>

text \<open>
  The second argument is the text of the file, or \<open>None\<close> when opening, reading or decoding
  it raises; the function catches the exception and returns \<open>None\<close>.  The title is the
  first level-1 heading or, without one, the base name with every \<open>.md\<close> removed.
\<close>

record guide_data =
  gd_title :: string
  gd_content :: string

definition process_guide_markdown :: "string \<Rightarrow> string option \<Rightarrow> guide_data option" where
  "process_guide_markdown file_path file_text =
     (case file_text of
        None \<Rightarrow> None
      | Some raw \<Rightarrow>
          (let content = strip_comments raw;
               title = (case search_title True content of
                          Some t \<Rightarrow> t
                        | None \<Rightarrow> py_replace ''.md'' [] (basename file_path))
           in Some \<lparr>gd_title = title, gd_content = content\<rparr>))"

subsection \<open>JSON values and generate_mcp_manifest (lines 208 to 259)\<close>

text \<open>
  A parsed JSON document.  An object is the list of its entries in insertion order, as a
  Python dictionary keeps them; numbers are not inspected by the script.  \<open>dict_get\<close> is
  \<^verbatim>\<open>d.get(k)\<close> and \<open>dict_set\<close> is \<^verbatim>\<open>d[k] = v\<close>: an existing key keeps its place, a new
  key goes to the end.
\<close>

datatype json =
    JNull
  | JBool bool
  | JInt int
  | JFloat string
  | JStr string
  | JArr "json list"
  | JObj "(string \<times> json) list"

datatype py_error = AttributeError | TypeError | JSONDecodeError | OSError

definition dict_get :: "(string \<times> json) list \<Rightarrow> string \<Rightarrow> json option" where
  "dict_get d k = map_of d k"

definition dict_set :: "(string \<times> json) list \<Rightarrow> string \<Rightarrow> json \<Rightarrow> (string \<times> json) list" where
  "dict_set d k v =
     (if k \<in> set (map fst d)
      then map (\<lambda>(k', v'). if k' = k then (k', v) else (k', v')) d
      else d @ [(k, v)])"

text \<open>
  The records of \<^verbatim>\<open>generated_guides\<close> (lines 170 to 174) and the grouping loop of lines
  229 to 234: \<^verbatim>\<open>guides_by_type\<close> is a dictionary from type to list, in insertion order.
\<close>

record generated_guide =
  g_name :: string
  g_type :: string
  g_path :: string

fun group_guides ::
  "generated_guide list \<Rightarrow> (string \<times> generated_guide list) list
     \<Rightarrow> (string \<times> generated_guide list) list" where
  "group_guides [] guides_by_type = guides_by_type"
| "group_guides (guide # generated_guides) guides_by_type =
     (let guide_type = g_type guide;
          with_key = (if guide_type \<notin> set (map fst guides_by_type)
                      then guides_by_type @ [(guide_type, [])] else guides_by_type)
      in group_guides generated_guides
           (map (\<lambda>(t, gs). if t = guide_type then (t, gs @ [guide]) else (t, gs)) with_key))"

text \<open>
  Lines 237 to 245: one endpoint per guide, group by group.
\<close>

definition make_endpoint :: "string \<Rightarrow> generated_guide \<Rightarrow> json" where
  "make_endpoint type_label guide =
     JObj [(''name'', JStr (py_replace ''.json'' [] (last (py_split CHR ''/'' (g_path guide))))),
           (''description'', JStr (type_label @ '' guide for '' @ g_name guide)),
           (''path'', JStr (''/'' @ g_path guide))]"

definition guide_endpoints :: "(string \<times> generated_guide list) list \<Rightarrow> json list" where
  "guide_endpoints guides_by_type =
     concat (map (\<lambda>(guide_type, guides). map (make_endpoint (py_capitalize guide_type)) guides)
                 guides_by_type)"

text \<open>
  Lines 225 and 226.  Iterating over the value of \<open>endpoints\<close> yields the elements of a
  list, the keys of an object or the characters of a string, and raises \<open>TypeError\<close> for
  anything else; \<^verbatim>\<open>endpoint.get\<close> raises \<open>AttributeError\<close> on anything but an object, and
  so does \<^verbatim>\<open>manifest.get\<close>.  \<open>build_manifest\<close> is the body of the \<^verbatim>\<open>try\<close> block between
  parsing and writing.
\<close>

fun py_iter :: "json \<Rightarrow> py_error + json list" where
  "py_iter (JArr xs) = Inr xs"
| "py_iter (JObj d) = Inr (map (\<lambda>(k, v). JStr k) d)"
| "py_iter (JStr s) = Inr (map (\<lambda>c. JStr [c]) s)"
| "py_iter _ = Inl TypeError"

fun main_guide_endpoints :: "json list \<Rightarrow> py_error + json list" where
  "main_guide_endpoints [] = Inr []"
| "main_guide_endpoints (JObj d # es) =
     (case main_guide_endpoints es of
        Inl err \<Rightarrow> Inl err
      | Inr kept \<Rightarrow>
          Inr (if dict_get d ''name'' = Some (JStr ''main_guide'') then JObj d # kept else kept))"
| "main_guide_endpoints (_ # es) = Inl AttributeError"

fun build_manifest :: "json \<Rightarrow> generated_guide list \<Rightarrow> py_error + json" where
  "build_manifest (JObj d) generated_guides =
     (case py_iter (case dict_get d ''endpoints'' of Some v \<Rightarrow> v | None \<Rightarrow> JArr []) of
        Inl err \<Rightarrow> Inl err
      | Inr items \<Rightarrow>
          (case main_guide_endpoints items of
             Inl err \<Rightarrow> Inl err
           | Inr endpoints \<Rightarrow>
               Inr (JObj (dict_set d ''endpoints''
                      (JArr (endpoints @ guide_endpoints (group_guides generated_guides [])))))))"
| "build_manifest _ generated_guides = Inl AttributeError"

subsection \<open>The environment and the effects of a run\<close>

text \<open>
  What a run reads: the directory of the root document (an absolute path), the text of the
  root document (\<open>None\<close> when it cannot be read), the state of \<^verbatim>\<open>docs/guides\<close> with its
  entries in the order \<^verbatim>\<open>os.listdir\<close> returns them, the current date as formatted by
  \<^verbatim>\<open>strftime\<close>, the text of the manifest template, \<^verbatim>\<open>json.loads\<close> as a function that
  returns \<open>None\<close> where it raises, and which directories can be created and which files
  opened for writing.  Paths of output files are relative to the output directory.
\<close>

datatype dir_entry = Directory | RegularFile "string option"

datatype guides_dir_state = Missing | NotListable | Listing "(string \<times> dir_entry) list"

record env =
  project_dir :: string
  readme :: "string option"
  guides_dir_state :: guides_dir_state
  today :: string
  template :: "string option"
  loads :: "string \<Rightarrow> json option"
  mkdir_ok :: "string \<Rightarrow> bool"
  writable :: "string \<Rightarrow> bool"

text \<open>
  What a run does, in order: directories created, files written, lines printed.  The JSON
  files are recorded as the value handed to \<^verbatim>\<open>json.dump\<close>; the index page is recorded as
  the rows of its table (type, link target, link text, description), the markup around
  them being constant.  The text of a caught exception is not part of a printed message.
  A run returns, calls \<^verbatim>\<open>sys.exit\<close>, or ends with an uncaught exception, for which the
  interpreter exits with code 1.
\<close>

type_synonym index_row = "string \<times> string \<times> string \<times> string"

datatype file_content = JsonDoc json | IndexHtml "index_row list"

datatype message =
    LookingForGuides string
  | ErrorReadingReadme
  | ErrorNoGuideStart
  | ErrorProcessingGuide string
  | Created string
  | SuccessJson
  | ManifestCreated
  | ErrorManifest py_error
  | GeneratedFiles

datatype effect = Makedirs string | WriteFile string file_content | Print message

datatype outcome = Returned | SysExit nat | Uncaught py_error

fun exit_code :: "outcome \<Rightarrow> nat" where
  "exit_code Returned = 0"
| "exit_code (SysExit n) = n"
| "exit_code (Uncaught e) = 1"

subsection \<open>create_guide_json (lines 84 to 206) and create_index_html (lines 261 to 364)\<close>

definition reference_json :: "reference \<Rightarrow> json" where
  "reference_json r =
     JObj [(''name'', JStr (ref_name r)), (''path'', JStr (ref_path r)),
           (''type'', JStr (ref_type r)), (''apiUrl'', JStr (ref_apiUrl r))]"

definition specific_guide_json :: "string \<Rightarrow> string \<Rightarrow> string \<Rightarrow> guide_data \<Rightarrow> json" where
  "specific_guide_json now filename guide_type gd =
     JObj [(''metadata'',
              JObj [(''name'', JStr (gd_title gd)),
                    (''type'', JStr guide_type),
                    (''version'', JStr ''0.1.0''),
                    (''lastUpdated'', JStr now),
                    (''source'', JStr (''https://github.com/dwmkerr/ai-developer-guide/docs/guides/''
                                        @ filename))]),
           (''content'', JStr (gd_content gd))]"

definition main_guide_json :: "string \<Rightarrow> string \<Rightarrow> reference list \<Rightarrow> json" where
  "main_guide_json now guide_content references =
     JObj [(''metadata'',
              JObj [(''name'', JStr ''AI Developer Guide''),
                    (''version'', JStr ''0.1.0''),
                    (''lastUpdated'', JStr now),
                    (''source'', JStr ''https://github.com/dwmkerr/ai-developer-guide'')]),
           (''content'', JStr guide_content),
           (''references'', JArr (map reference_json references))]"

text \<open>
  Lines 97 to 106: the directories created before anything is read.
\<close>

definition api_dir :: string where
  "api_dir = ''api''"

definition api_guides_dir :: string where
  "api_guides_dir = py_join api_dir ''guides''"

definition guide_types :: "string list" where
  "guide_types = [''languages'', ''patterns'', ''platforms'', ''other'']"

fun make_dirs :: "(string \<Rightarrow> bool) \<Rightarrow> string list \<Rightarrow> effect list \<times> bool" where
  "make_dirs ok [] = ([], True)"
| "make_dirs ok (d # ds) =
     (if ok d then (case make_dirs ok ds of (es, r) \<Rightarrow> (Makedirs d # es, r))
      else ([], False))"

text \<open>
  Lines 136 to 138: the markdown files directly inside the guides directory, with their
  full paths.  A missing directory gives no file; a path that exists and cannot be listed
  makes \<^verbatim>\<open>os.listdir\<close> raise.
\<close>

definition guide_files :: "string \<Rightarrow> (string \<times> dir_entry) list \<Rightarrow> (string \<times> string option) list" where
  "guide_files guides_dir entries =
     concat (map (\<lambda>(f, e). case e of
                     RegularFile text \<Rightarrow> if suffix ''.md'' f then [(py_join guides_dir f, text)] else []
                   | Directory \<Rightarrow> []) entries)"

definition list_guide_files ::
  "string \<Rightarrow> guides_dir_state \<Rightarrow> py_error + (string \<times> string option) list" where
  "list_guide_files guides_dir st =
     (case st of
        Missing \<Rightarrow> Inr []
      | NotListable \<Rightarrow> Inl OSError
      | Listing entries \<Rightarrow> Inr (guide_files guides_dir entries))"

text \<open>
  Lines 141 to 174, the loop over the guide files.  The type is inferred from the full
  path of the file.  A guide that cannot be read is reported and skipped; a directory that
  cannot be created or a file that cannot be opened raises and ends the run.
\<close>

fun process_guides ::
  "(string \<Rightarrow> bool) \<Rightarrow> (string \<Rightarrow> bool) \<Rightarrow> string \<Rightarrow> (string \<times> string option) list
     \<Rightarrow> generated_guide list \<Rightarrow> effect list \<times> (py_error + generated_guide list)" where
  "process_guides mk wr now [] generated_guides = ([], Inr generated_guides)"
| "process_guides mk wr now ((guide_file, file_text) # rest) generated_guides =
     (let filename = basename guide_file
      in case process_guide_markdown guide_file file_text of
           None \<Rightarrow>
             (case process_guides mk wr now rest generated_guides of
                (es, r) \<Rightarrow> (Print (ErrorProcessingGuide guide_file) # es, r))
         | Some gd \<Rightarrow>
             (let guide_type = infer_guide_type guide_file;
                  output_filename = py_replace ''.md'' ''.json'' filename;
                  output_subdir = guide_type @ ''s'';
                  output_path = py_join (py_join api_guides_dir output_subdir) output_filename
              in if \<not> mk (dirname output_path) then ([], Inl OSError)
                 else if \<not> wr output_path then ([Makedirs (dirname output_path)], Inl OSError)
                 else
                   (case process_guides mk wr now rest
                           (generated_guides @
                              [\<lparr>g_name = gd_title gd, g_type = guide_type,
                                g_path = ''api/guides/'' @ output_subdir @ ''/'' @ output_filename\<rparr>]) of
                      (es, r) \<Rightarrow>
                        (Makedirs (dirname output_path)
                           # WriteFile output_path
                               (JsonDoc (specific_guide_json now filename guide_type gd))
                           # Print (Created output_path) # es, r))))"

text \<open>
  \<open>create_index_html\<close>: the manifest row, the main guide row, then the guides by type in
  the fixed order of line 295, each group sorted by name.
\<close>

definition guide_type_order :: "string list" where
  "guide_type_order = [''language'', ''pattern'', ''platform'', ''other'']"

definition index_rows :: "generated_guide list \<Rightarrow> index_row list" where
  "index_rows generated_guides =
     (let guides_by_type = group_guides generated_guides []
      in [(''Manifest'', ''manifest.json'', ''manifest.json'', ''MCP Server Manifest''),
          (''Main Guide'', ''api/guide.json'', ''guide.json'', ''Complete AI Developer Guide'')]
         @ concat (map (\<lambda>guide_type.
              case map_of guides_by_type guide_type of
                None \<Rightarrow> []
              | Some guides \<Rightarrow>
                  map (\<lambda>guide. (py_capitalize guide_type, g_path guide,
                                 last (py_split CHR ''/'' (g_path guide)), g_name guide))
                      (sort_key g_name guides))
            guide_type_order))"

definition create_index_html :: "(string \<Rightarrow> bool) \<Rightarrow> generated_guide list \<Rightarrow> effect list \<times> bool" where
  "create_index_html wr generated_guides =
     (if wr ''index.html''
      then ([WriteFile ''index.html'' (IndexHtml (index_rows generated_guides)),
             Print (Created ''index.html'')], True)
      else ([], False))"

text \<open>
  \<open>generate_mcp_manifest\<close>: every exception of the \<^verbatim>\<open>try\<close> block is caught and printed,
  so the function has effects and no outcome of its own.
\<close>

definition generate_mcp_manifest ::
  "string option \<Rightarrow> (string \<Rightarrow> json option) \<Rightarrow> (string \<Rightarrow> bool) \<Rightarrow> generated_guide list
     \<Rightarrow> effect list" where
  "generate_mcp_manifest tmpl parse wr generated_guides =
     (case tmpl of
        None \<Rightarrow> [Print (ErrorManifest OSError)]
      | Some template_content \<Rightarrow>
          (case parse (strip_line_comments template_content) of
             None \<Rightarrow> [Print (ErrorManifest JSONDecodeError)]
           | Some manifest \<Rightarrow>
               (case build_manifest manifest generated_guides of
                  Inl err \<Rightarrow> [Print (ErrorManifest err)]
                | Inr final \<Rightarrow>
                    if wr ''manifest.json''
                    then [WriteFile ''manifest.json'' (JsonDoc final), Print (Created ''manifest.json''),
                          Print ManifestCreated]
                    else [Print (ErrorManifest OSError)])))"

text \<open>
  Lines 117 to 126: the guide content starts at the first occurrence of the marker in the
  comment-stripped text; without one the run exits.
\<close>

definition guide_start :: "string \<Rightarrow> string option" where
  "guide_start readme_text =
     (let content = strip_comments readme_text;
          guide_start_idx = py_find ''## The Golden Rules'' content
      in if guide_start_idx = - 1 then None
         else Some (drop (nat guide_start_idx) content))"

text \<open>
  The function itself: \<open>write_outputs\<close> is its part from the guide loop on.  The listing
  of the output directory printed at the end (lines 203 to 206) is read-only and is recorded
  by its heading.
\<close>

definition write_outputs ::
  "env \<Rightarrow> string \<Rightarrow> reference list \<Rightarrow> (string \<times> string option) list \<Rightarrow> effect list \<times> outcome" where
  "write_outputs e guide_content references files =
     (case process_guides (mkdir_ok e) (writable e) (today e) files [] of
        (es1, Inl err) \<Rightarrow> (es1, Uncaught err)
      | (es1, Inr generated_guides) \<Rightarrow>
          if \<not> writable e (py_join api_dir ''guide.json'') then (es1, Uncaught OSError)
          else
            (let es2 = es1 @ [WriteFile (py_join api_dir ''guide.json'')
                                (JsonDoc (main_guide_json (today e) guide_content references)),
                              Print (Created ''api/guide.json'')]
             in case create_index_html (writable e) generated_guides of
                  (es3, False) \<Rightarrow> (es2 @ es3, Uncaught OSError)
                | (es3, True) \<Rightarrow>
                    (es2 @ es3 @ [Print SuccessJson]
                       @ generate_mcp_manifest (template e) (loads e) (writable e) generated_guides
                       @ [Print GeneratedFiles],
                     Returned)))"

definition create_guide_json :: "env \<Rightarrow> effect list \<times> outcome" where
  "create_guide_json e =
     (let guides_dir = py_join (py_join (project_dir e) ''docs'') ''guides'';
          start = [Print (LookingForGuides guides_dir)]
      in case make_dirs (mkdir_ok e)
                ([api_dir, api_guides_dir] @ map (py_join api_guides_dir) guide_types) of
           (es0, False) \<Rightarrow> (start @ es0, Uncaught OSError)
         | (es0, True) \<Rightarrow>
             (case readme e of
                None \<Rightarrow> (start @ es0 @ [Print ErrorReadingReadme], SysExit 1)
              | Some text \<Rightarrow>
                  (case guide_start text of
                     None \<Rightarrow> (start @ es0 @ [Print ErrorNoGuideStart], SysExit 1)
                   | Some guide_content \<Rightarrow>
                       (let references = extract_references guide_content
                        in case list_guide_files guides_dir (guides_dir_state e) of
                             Inl err \<Rightarrow> (start @ es0, Uncaught err)
                           | Inr files \<Rightarrow>
                               (case write_outputs e guide_content references files of
                                  (es, out) \<Rightarrow> (start @ es0 @ es, out))))))"

section \<open>Notions used to state the properties\<close>

text \<open>
  A case-insensitive substring check as the specification words it: some contiguous part of
  the path equals the keyword once both are lower-cased.
\<close>

definition ci_substring :: "string \<Rightarrow> string \<Rightarrow> bool" where
  "ci_substring needle path \<longleftrightarrow>
     (\<exists>pre mid post. path = pre @ mid @ post \<and> py_lower mid = py_lower needle)"

text \<open>
  Links that qualify as guide references; a text written as plain links, each after a text
  without an opening bracket, with names free of closing brackets and paths free of closing
  parentheses, neither with a newline.
\<close>

definition is_guide_link :: "string \<times> string \<Rightarrow> bool" where
  "is_guide_link l = (py_in ''guides'' (snd l) \<and> suffix ''.md'' (snd l))"

definition link_text :: "string \<Rightarrow> string \<Rightarrow> string" where
  "link_text n p = ''['' @ n @ '']('' @ p @ '')''"

fun render_links :: "(string \<times> string \<times> string) list \<Rightarrow> string \<Rightarrow> string" where
  "render_links [] tail = tail"
| "render_links ((t, n, p) # items) tail = t @ link_text n p @ render_links items tail"

definition plain_link :: "string \<times> string \<times> string \<Rightarrow> bool" where
  "plain_link i = (case i of (t, n, p) \<Rightarrow>
     CHR ''['' \<notin> set t \<and> CHR '']'' \<notin> set n \<and> CHR 0x0A \<notin> set n
     \<and> CHR '')'' \<notin> set p \<and> CHR 0x0A \<notin> set p)"

text \<open>
  A text holds a complete comment block when \<open><!--\<close> occurs with \<open>-->\<close> somewhere behind
  it; \<open>has_block\<close> decides it.
\<close>

definition has_comment :: "string \<Rightarrow> bool" where
  "has_comment s \<longleftrightarrow> (\<exists>a b c. s = a @ ''<!--'' @ b @ ''-->'' @ c)"

fun has_block :: "string \<Rightarrow> bool" where
  "has_block [] = False"
| "has_block (c # cs) = (match_comment (c # cs) \<noteq> None \<or> has_block cs)"

text \<open>
  \<^verbatim>\<open>sep.join(parts)\<close>.
\<close>

fun join_with :: "string \<Rightarrow> string list \<Rightarrow> string" where
  "join_with sep [] = []"
| "join_with sep [p] = p"
| "join_with sep (p # q # ps) = p @ sep @ join_with sep (q # ps)"

text \<open>
  The types in the order of their first guide, and the guides regrouped in that order;
  template endpoints that are objects, and those named \<open>main_guide\<close>.
\<close>

fun first_seen :: "string list \<Rightarrow> string list" where
  "first_seen [] = []"
| "first_seen (x # xs) = x # filter (\<lambda>y. y \<noteq> x) (first_seen xs)"

definition grouped_order :: "generated_guide list \<Rightarrow> generated_guide list" where
  "grouped_order gg =
     concat (map (\<lambda>t. filter (\<lambda>g. g_type g = t) gg) (first_seen (map g_type gg)))"

definition is_object :: "json \<Rightarrow> bool" where
  "is_object j = (case j of JObj d \<Rightarrow> True | _ \<Rightarrow> False)"

definition is_main_guide :: "json \<Rightarrow> bool" where
  "is_main_guide j =
     (case j of JObj d \<Rightarrow> dict_get d ''name'' = Some (JStr ''main_guide'') | _ \<Rightarrow> False)"

text \<open>
  The path a guide file is written to (lines 147 to 150), and projections of the list of
  effects: the paths written, the directories created, the writes outside
  \<^verbatim>\<open>manifest.json\<close>, and the contents written at one path.
\<close>

definition guide_output_path :: "string \<Rightarrow> string" where
  "guide_output_path guide_file =
     py_join (py_join api_guides_dir (infer_guide_type guide_file @ ''s''))
             (py_replace ''.md'' ''.json'' (basename guide_file))"

definition written_paths :: "effect list \<Rightarrow> string list" where
  "written_paths es = concat (map (\<lambda>x. case x of WriteFile p c \<Rightarrow> [p] | _ \<Rightarrow> []) es)"

definition made_dirs :: "effect list \<Rightarrow> string list" where
  "made_dirs es = concat (map (\<lambda>x. case x of Makedirs d \<Rightarrow> [d] | _ \<Rightarrow> []) es)"

definition other_writes :: "effect list \<Rightarrow> effect list" where
  "other_writes es =
     filter (\<lambda>x. case x of WriteFile p c \<Rightarrow> p \<noteq> ''manifest.json'' | _ \<Rightarrow> False) es"

definition written_at :: "string \<Rightarrow> effect list \<Rightarrow> file_content list" where
  "written_at p es =
     concat (map (\<lambda>x. case x of WriteFile q c \<Rightarrow> if q = p then [c] else [] | _ \<Rightarrow> []) es)"

text \<open>
  A run used for the examples: a root document with a comment, the marker and one guide
  link; a guides directory with \<^verbatim>\<open>python.md\<close>, \<^verbatim>\<open>git.md\<close>, a subdirectory and an
  unreadable file; a template that parses to an empty object.
\<close>

definition example_env :: env where
  "example_env =
     \<lparr>project_dir = ''/repo'',
      readme = Some (''intro <!-- c -->'' @ [CHR 0x0A] @ ''## The Golden Rules'' @ [CHR 0x0A]
                      @ ''[Python Guide](./docs/guides/python.md)''),
      guides_dir_state = Listing [(''python.md'', RegularFile (Some (''# Python Guide'' @ [CHR 0x0A] @ ''Body text.''))),
                                  (''git.md'', RegularFile (Some ''no title'')),
                                  (''sub'', Directory), (''bad.md'', RegularFile None)],
      today = ''2025-01-01'',
      template = Some ''{}'',
      loads = (\<lambda>s. if s = ''{}'' then Some (JObj []) else None),
      mkdir_ok = (\<lambda>p. True),
      writable = (\<lambda>p. True)\<rparr>"

section \<open>Properties\<close>

subsection \<open>Substring search and infer_guide_type\<close>

lemma py_in_iff: "py_in n s \<longleftrightarrow> (\<exists>pre post. s = pre @ n @ post)"
proof (induction s)
  case Nil
  show ?case by auto
next
  case (Cons c cs)
  show ?case
  proof
    assume "py_in n (c # cs)"
    then consider "prefix n (c # cs)" | "py_in n cs" by auto
    then show "\<exists>pre post. c # cs = pre @ n @ post"
    proof cases
      case 1
      then obtain post where "c # cs = n @ post" by (auto simp: prefix_def)
      then have "c # cs = [] @ n @ post" by simp
      then show ?thesis by blast
    next
      case 2
      with Cons.IH obtain pre post where "cs = pre @ n @ post" by blast
      then have "c # cs = (c # pre) @ n @ post" by simp
      then show ?thesis by blast
    qed
  next
    assume "\<exists>pre post. c # cs = pre @ n @ post"
    then obtain pre post where eq: "c # cs = pre @ n @ post" by blast
    show "py_in n (c # cs)"
    proof (cases pre)
      case Nil
      with eq have "prefix n (c # cs)" by (simp add: prefix_def)
      then show ?thesis by simp
    next
      case (Cons d pre')
      with eq have "cs = pre' @ n @ post" by simp
      with Cons.IH have "py_in n cs" by blast
      then show ?thesis by simp
    qed
  qed
qed

lemma map_split_append:
  assumes "map f xs = a @ b"
  shows "\<exists>us vs. xs = us @ vs \<and> map f us = a \<and> map f vs = b"
proof -
  let ?us = "take (length a) xs" and ?vs = "drop (length a) xs"
  from assms have "map f ?us = a" "map f ?vs = b"
    by (simp_all add: take_map [symmetric] drop_map [symmetric])
  moreover have "xs = ?us @ ?vs" by simp
  ultimately show ?thesis by blast
qed

lemma ci_substring_code: "ci_substring n p \<longleftrightarrow> py_in (py_lower n) (py_lower p)"
proof
  assume "ci_substring n p"
  then obtain pre mid post where "p = pre @ mid @ post" "py_lower mid = py_lower n"
    by (auto simp: ci_substring_def)
  then have "py_lower p = py_lower pre @ py_lower n @ py_lower post"
    by (simp add: py_lower_def)
  then show "py_in (py_lower n) (py_lower p)"
    unfolding py_in_iff by blast
next
  assume "py_in (py_lower n) (py_lower p)"
  then obtain a b where "map lower_char p = a @ py_lower n @ b"
    unfolding py_in_iff py_lower_def by blast
  then obtain pre rest where p: "p = pre @ rest" and r: "map lower_char rest = py_lower n @ b"
    using map_split_append by blast
  then obtain mid post where "rest = mid @ post" "map lower_char mid = py_lower n"
    using map_split_append by blast
  with p show "ci_substring n p"
    by (auto simp: ci_substring_def py_lower_def)
qed

lemma keywords_lower:
  "py_lower ''python'' = ''python''" "py_lower ''make'' = ''make''"
  "py_lower ''postgresql'' = ''postgresql''" "py_lower ''sql'' = ''sql''"
  "py_lower ''shell'' = ''shell''"
  by code_simp+

text \<open>
  C2 (as amended).  \<open>infer_guide_type\<close> is a total function with one of four results, and
  it classifies by case-insensitive substring checks in the fixed order python, make,
  postgresql or sql, shell, with the first match winning.  A path that contains both
  shell and sql, and neither python nor make, is classified as platform.
\<close>

theorem infer_guide_type_priority:
  "infer_guide_type p \<in> {''language'', ''pattern'', ''platform'', ''other''}
   \<and> infer_guide_type p =
       (if ci_substring ''python'' p then ''language''
        else if ci_substring ''make'' p then ''pattern''
        else if ci_substring ''postgresql'' p \<or> ci_substring ''sql'' p then ''platform''
        else if ci_substring ''shell'' p then ''language''
        else ''other'')
   \<and> (ci_substring ''shell'' p \<and> ci_substring ''sql'' p
        \<and> \<not> ci_substring ''python'' p \<and> \<not> ci_substring ''make'' p
        \<longrightarrow> infer_guide_type p = ''platform'')"
  by (simp add: infer_guide_type_def ci_substring_code keywords_lower)

theorem infer_guide_type_priority_witness:
  "ci_substring ''shell'' ''docs/guides/Shell-SQL.md''
   \<and> ci_substring ''sql'' ''docs/guides/Shell-SQL.md''
   \<and> \<not> ci_substring ''python'' ''docs/guides/Shell-SQL.md''
   \<and> \<not> ci_substring ''make'' ''docs/guides/Shell-SQL.md''
   \<and> infer_guide_type ''docs/guides/Shell-SQL.md'' = ''platform''"
proof -
  have a: "py_in ''shell'' (py_lower ''docs/guides/Shell-SQL.md'')" by code_simp
  have b: "py_in ''sql'' (py_lower ''docs/guides/Shell-SQL.md'')" by code_simp
  have c: "\<not> py_in ''python'' (py_lower ''docs/guides/Shell-SQL.md'')" by code_simp
  have d: "\<not> py_in ''make'' (py_lower ''docs/guides/Shell-SQL.md'')" by code_simp
  from a b c d have h: "ci_substring ''shell'' ''docs/guides/Shell-SQL.md''
      \<and> ci_substring ''sql'' ''docs/guides/Shell-SQL.md''
      \<and> \<not> ci_substring ''python'' ''docs/guides/Shell-SQL.md''
      \<and> \<not> ci_substring ''make'' ''docs/guides/Shell-SQL.md''"
    by (simp add: ci_substring_code keywords_lower)
  with infer_guide_type_priority [of "''docs/guides/Shell-SQL.md''"] show ?thesis
    by blast
qed

text \<open>
  C2 as stated fails: a path may contain both shell and sql and still be classified by an
  earlier rule.
\<close>

theorem infer_guide_type_shell_sql_counterexample:
  "py_in ''shell'' (py_lower ''docs/guides/python-shell-sql.md'')
   \<and> py_in ''sql'' (py_lower ''docs/guides/python-shell-sql.md'')
   \<and> infer_guide_type ''docs/guides/python-shell-sql.md'' = ''language''
   \<and> infer_guide_type ''docs/guides/python-shell-sql.md'' \<noteq> ''platform''"
  by code_simp

subsection \<open>Links and extract_references\<close>

lemma extract_loop_eq:
  "extract_loop b ms acc = acc @ map (\<lambda>(n, p).
      \<lparr>ref_name = n, ref_path = p, ref_type = infer_guide_type p,
       ref_apiUrl = b @ ''/'' @ infer_guide_type p @ ''s/''
                      @ py_replace ''.md'' ''.json'' (basename p)\<rparr>) (filter is_guide_link ms)"
proof (induction ms arbitrary: acc)
  case Nil
  show ?case by simp
next
  case (Cons m ms)
  obtain n p where m: "m = (n, p)" by (cases m)
  show ?case unfolding m
    by (simp add: Cons.IH is_guide_link_def Let_def)
qed

lemma match_path_plain:
  "CHR '')'' \<notin> set p \<Longrightarrow> CHR 0x0A \<notin> set p \<Longrightarrow> match_path (p @ CHR '')'' # rest) = Some (p, rest)"
  by (induction p) auto

lemma match_name_plain:
  assumes "CHR '']'' \<notin> set n" "CHR 0x0A \<notin> set n" "CHR '')'' \<notin> set p" "CHR 0x0A \<notin> set p"
  shows "match_name (n @ CHR '']'' # CHR ''('' # p @ CHR '')'' # rest) = Some (n, p, rest)"
  using assms(1,2)
proof (induction n)
  case Nil
  show ?case using match_path_plain [OF assms(3,4)] by simp
next
  case (Cons c cs)
  then show ?case by auto
qed

lemma find_links_skip: "CHR ''['' \<notin> set t \<Longrightarrow> find_links (t @ s) = find_links s"
  by (induction t) (auto simp: match_link_def)

lemma find_links_no_bracket: "CHR ''['' \<notin> set t \<Longrightarrow> find_links t = []"
  using find_links_skip [of t "[]"] by simp

lemma find_links_link:
  assumes "CHR '']'' \<notin> set n" "CHR 0x0A \<notin> set n" "CHR '')'' \<notin> set p" "CHR 0x0A \<notin> set p"
  shows "find_links (link_text n p @ rest) = (n, p) # find_links rest"
  using match_name_plain [OF assms, of rest]
  by (simp add: link_text_def match_link_def)

lemma find_links_render:
  "\<forall>i \<in> set items. plain_link i \<Longrightarrow> CHR ''['' \<notin> set tail \<Longrightarrow>
   find_links (render_links items tail) = map snd items"
proof (induction items)
  case Nil
  then show ?case by (simp add: find_links_no_bracket)
next
  case (Cons i items)
  obtain t n p where i: "i = (t, n, p)" by (cases i)
  from Cons.prems i have pl: "CHR ''['' \<notin> set t" "CHR '']'' \<notin> set n" "CHR 0x0A \<notin> set n"
    "CHR '')'' \<notin> set p" "CHR 0x0A \<notin> set p"
    by (simp_all add: plain_link_def)
  from Cons have IH: "find_links (render_links items tail) = map snd items" by simp
  show ?case unfolding i
    by (simp add: find_links_skip [OF pl(1)] find_links_link [OF pl(2-5)] IH)
qed

text \<open>
  C1.  The links of a text are the successive matches of the pattern
  \<open>\[(.*?)\]\((.*?)\)\<close>, found by \<^const>\<open>find_links\<close> from left to right.
  \<open>extract_references\<close> returns exactly one record for every link whose path contains
  \<open>guides\<close> and ends with \<open>.md\<close>, in the order of the links, with the name, the path,
  the type inferred from the path and the API URL built from the type and the basename; the
  other links contribute nothing.  For a text written as plain links separated by
  bracket-free text, the links found are exactly the links written.
\<close>

theorem extract_references_links:
  "extract_references content =
     map (\<lambda>(n, p). \<lparr>ref_name = n, ref_path = p, ref_type = infer_guide_type p,
            ref_apiUrl = ''api/guides/'' @ infer_guide_type p @ ''s/''
                           @ py_replace ''.md'' ''.json'' (basename p)\<rparr>)
         (filter is_guide_link (find_links content))
   \<and> length (extract_references content) = length (filter is_guide_link (find_links content))
   \<and> ((\<forall>i \<in> set items. plain_link i) \<and> CHR ''['' \<notin> set tail \<longrightarrow>
        extract_references (render_links items tail) =
          map (\<lambda>(n, p). \<lparr>ref_name = n, ref_path = p, ref_type = infer_guide_type p,
                 ref_apiUrl = ''api/guides/'' @ infer_guide_type p @ ''s/''
                                @ py_replace ''.md'' ''.json'' (basename p)\<rparr>)
              (filter is_guide_link (map snd items)))"
  by (simp add: extract_references_def extract_loop_eq find_links_render)

theorem extract_references_links_witness:
  "plain_link (''See '', ''Python Guide'', ''./docs/guides/python.md'')
   \<and> plain_link ('' or '', ''Home'', ''index.html'')
   \<and> plain_link ('', then '', ''Make'', ''docs/guides/make.md'')
   \<and> CHR ''['' \<notin> set ''.''
   \<and> extract_references
         ''See [Python Guide](./docs/guides/python.md) or [Home](index.html), then [Make](docs/guides/make.md).''
       = [\<lparr>ref_name = ''Python Guide'', ref_path = ''./docs/guides/python.md'',
           ref_type = ''language'', ref_apiUrl = ''api/guides/languages/python.json''\<rparr>,
          \<lparr>ref_name = ''Make'', ref_path = ''docs/guides/make.md'',
           ref_type = ''pattern'', ref_apiUrl = ''api/guides/patterns/make.json''\<rparr>]"
proof -
  let ?items = "[(''See '', ''Python Guide'', ''./docs/guides/python.md''),
                 ('' or '', ''Home'', ''index.html''),
                 ('', then '', ''Make'', ''docs/guides/make.md'')]"
  have h: "(\<forall>i \<in> set ?items. plain_link i) \<and> CHR ''['' \<notin> set ''.''"
    by code_simp
  have r: "render_links ?items ''.'' =
    ''See [Python Guide](./docs/guides/python.md) or [Home](index.html), then [Make](docs/guides/make.md).''"
    by code_simp
  have v: "map (\<lambda>(n, p). \<lparr>ref_name = n, ref_path = p, ref_type = infer_guide_type p,
                 ref_apiUrl = ''api/guides/'' @ infer_guide_type p @ ''s/''
                                @ py_replace ''.md'' ''.json'' (basename p)\<rparr>)
              (filter is_guide_link (map snd ?items))
       = [\<lparr>ref_name = ''Python Guide'', ref_path = ''./docs/guides/python.md'',
           ref_type = ''language'', ref_apiUrl = ''api/guides/languages/python.json''\<rparr>,
          \<lparr>ref_name = ''Make'', ref_path = ''docs/guides/make.md'',
           ref_type = ''pattern'', ref_apiUrl = ''api/guides/patterns/make.json''\<rparr>]"
    by code_simp
  from extract_references_links [of "[]" ?items "''.''"] h
  have "extract_references (render_links ?items ''.'') =
          map (\<lambda>(n, p). \<lparr>ref_name = n, ref_path = p, ref_type = infer_guide_type p,
                 ref_apiUrl = ''api/guides/'' @ infer_guide_type p @ ''s/''
                                @ py_replace ''.md'' ''.json'' (basename p)\<rparr>)
              (filter is_guide_link (map snd ?items))"
    by blast
  then have "extract_references
         ''See [Python Guide](./docs/guides/python.md) or [Home](index.html), then [Make](docs/guides/make.md).''
       = [\<lparr>ref_name = ''Python Guide'', ref_path = ''./docs/guides/python.md'',
           ref_type = ''language'', ref_apiUrl = ''api/guides/languages/python.json''\<rparr>,
          \<lparr>ref_name = ''Make'', ref_path = ''docs/guides/make.md'',
           ref_type = ''pattern'', ref_apiUrl = ''api/guides/patterns/make.json''\<rparr>]"
    unfolding r v .
  with h show ?thesis by simp
qed

subsection \<open>Replacing .md\<close>

lemma md_prefix_app:
  "\<not> py_in ''.md'' (c # cs) \<Longrightarrow> \<not> prefix ''.md'' (c # cs @ ''.md'' @ rest)"
proof (cases cs)
  case Nil then show ?thesis by auto
next
  case (Cons d ds)
  assume a: "\<not> py_in ''.md'' (c # cs)"
  show ?thesis
  proof (cases ds)
    case Nil with Cons a show ?thesis by auto
  next
    case (Cons e es)
    with \<open>cs = d # ds\<close> a show ?thesis by auto
  qed
qed

lemma py_replace_md_part:
  "\<not> py_in ''.md'' p \<Longrightarrow>
   py_replace ''.md'' new (p @ ''.md'' @ rest) = p @ new @ py_replace ''.md'' new rest"
proof (induction p)
  case Nil
  show ?case by simp
next
  case (Cons c cs)
  from Cons.prems have "\<not> py_in ''.md'' cs" by simp
  with Cons.IH have IH: "py_replace ''.md'' new (cs @ ''.md'' @ rest) = cs @ new @ py_replace ''.md'' new rest"
    by simp
  have np: "\<not> prefix ''.md'' (c # (cs @ ''.md'' @ rest))"
    using md_prefix_app [OF Cons.prems, of rest] by simp
  have "py_replace ''.md'' new (c # (cs @ ''.md'' @ rest))
          = c # py_replace ''.md'' new (cs @ ''.md'' @ rest)"
    by (subst py_replace.simps(2)) (simp only: np if_False, simp)
  with IH show ?case by simp
qed

lemma py_replace_absent: "\<not> py_in old s \<Longrightarrow> py_replace old new s = s"
  by (induction s) (auto split: if_splits)

lemma py_replace_md_join:
  "\<forall>p \<in> set parts. \<not> py_in ''.md'' p \<Longrightarrow>
   py_replace ''.md'' new (join_with ''.md'' parts) = join_with new parts"
proof (induction parts rule: induct_list012)
  case 1 show ?case by simp
next
  case (2 p) then show ?case by (simp add: py_replace_absent)
next
  case (3 p q ps)
  from 3 have a: "\<not> py_in ''.md'' p" and
    b: "py_replace ''.md'' new (join_with ''.md'' (q # ps)) = join_with new (q # ps)"
    by simp_all
  show ?case using py_replace_md_part [OF a, of new "join_with ''.md'' (q # ps)"] b by simp
qed

subsection \<open>Stripping comments\<close>

lemma find_close_iff: "find_close s \<noteq> None \<longleftrightarrow> py_in ''-->'' s"
  by (induction s) auto

lemma match_comment_iff:
  "match_comment s \<noteq> None \<longleftrightarrow> (\<exists>b c. s = ''<!--'' @ b @ ''-->'' @ c)"
proof
  assume "match_comment s \<noteq> None"
  then have p: "prefix ''<!--'' s" and f: "find_close (drop 4 s) \<noteq> None"
    by (auto simp: match_comment_def split: if_splits)
  from p obtain r where s: "s = ''<!--'' @ r" by (auto simp: prefix_def)
  with f have "find_close r \<noteq> None" by simp
  then have "py_in ''-->'' r" by (simp only: find_close_iff)
  then obtain b c where "r = b @ ''-->'' @ c" unfolding py_in_iff by blast
  with s show "\<exists>b c. s = ''<!--'' @ b @ ''-->'' @ c" by blast
next
  assume "\<exists>b c. s = ''<!--'' @ b @ ''-->'' @ c"
  then obtain b c where s: "s = ''<!--'' @ b @ ''-->'' @ c" by blast
  have "py_in ''-->'' (b @ ''-->'' @ c)" unfolding py_in_iff by blast
  then have "find_close (b @ ''-->'' @ c) \<noteq> None" by (simp only: find_close_iff)
  with s show "match_comment s \<noteq> None" by (simp add: match_comment_def)
qed

lemma has_block_iff: "has_block s \<longleftrightarrow> has_comment s"
proof (induction s)
  case Nil
  show ?case by (simp add: has_comment_def)
next
  case (Cons x xs)
  show ?case
  proof
    assume "has_block (x # xs)"
    then consider "match_comment (x # xs) \<noteq> None" | "has_block xs" by auto
    then show "has_comment (x # xs)"
    proof cases
      case 1
      then obtain b c where "x # xs = ''<!--'' @ b @ ''-->'' @ c"
        unfolding match_comment_iff by blast
      then have "x # xs = [] @ ''<!--'' @ b @ ''-->'' @ c" by simp
      then show ?thesis unfolding has_comment_def by blast
    next
      case 2
      with Cons.IH obtain a b c where "xs = a @ ''<!--'' @ b @ ''-->'' @ c"
        unfolding has_comment_def by blast
      then have "x # xs = (x # a) @ ''<!--'' @ b @ ''-->'' @ c" by simp
      then show ?thesis unfolding has_comment_def by blast
    qed
  next
    assume "has_comment (x # xs)"
    then obtain a b c where eq: "x # xs = a @ ''<!--'' @ b @ ''-->'' @ c"
      unfolding has_comment_def by blast
    show "has_block (x # xs)"
    proof (cases a)
      case Nil
      with eq have "\<exists>b c. x # xs = ''<!--'' @ b @ ''-->'' @ c" by auto
      then have "match_comment (x # xs) \<noteq> None" by (simp only: match_comment_iff)
      then show ?thesis by simp
    next
      case (Cons y ys)
      with eq have "xs = ys @ ''<!--'' @ b @ ''-->'' @ c" by simp
      then have "has_comment xs" unfolding has_comment_def by blast
      with Cons.IH show ?thesis by simp
    qed
  qed
qed

lemma strip_comments_length: "length (strip_comments s) \<le> length s"
proof (induction s rule: strip_comments.induct)
  case 1
  show ?case by simp
next
  case (2 c cs)
  show ?case
  proof (cases "match_comment (c # cs)")
    case None
    with 2 show ?thesis by simp
  next
    case (Some rest)
    with 2 have "length (strip_comments rest) \<le> length rest" by simp
    moreover from Some have "length rest < length (c # cs)" by (rule match_comment_length)
    ultimately show ?thesis using Some by simp
  qed
qed

lemma strip_comments_fixed: "\<not> has_block s \<Longrightarrow> strip_comments s = s"
  by (induction s) auto

lemma strip_comments_shrinks: "has_block s \<Longrightarrow> length (strip_comments s) < length s"
proof (induction s)
  case Nil
  then show ?case by simp
next
  case (Cons c cs)
  show ?case
  proof (cases "match_comment (c # cs)")
    case None
    with Cons show ?thesis by simp
  next
    case (Some rest)
    have "length (strip_comments rest) \<le> length rest" by (rule strip_comments_length)
    moreover from Some have "length rest < length (c # cs)" by (rule match_comment_length)
    ultimately show ?thesis using Some by simp
  qed
qed

lemma strip_comments_fixed_iff: "strip_comments s = s \<longleftrightarrow> \<not> has_comment s"
  using strip_comments_fixed [of s] strip_comments_shrinks [of s] has_block_iff [of s]
  by fastforce

text \<open>
  C5 (as amended).  Stripping twice equals stripping once exactly when the once-stripped
  text contains no complete comment block \<open><!-- ... -->\<close>; a text without a
  complete comment block is left unchanged.
\<close>

theorem strip_comments_twice:
  "(strip_comments (strip_comments t) = strip_comments t
      \<longleftrightarrow> \<not> has_comment (strip_comments t))
   \<and> (\<not> has_comment t \<longrightarrow> strip_comments t = t)"
  by (simp add: strip_comments_fixed_iff)

theorem strip_comments_twice_witness:
  "\<not> has_comment ''intro  text''
   \<and> strip_comments ''intro  text'' = ''intro  text''
   \<and> strip_comments ''intro <!-- note --> text'' = ''intro  text''
   \<and> strip_comments (strip_comments ''intro <!-- note --> text'')
       = strip_comments ''intro <!-- note --> text''"
proof -
  have "\<not> has_block ''intro  text''" by code_simp
  with has_block_iff [of "''intro  text''"] have h: "\<not> has_comment ''intro  text''"
    by blast
  have s: "strip_comments ''intro <!-- note --> text'' = ''intro  text''" by code_simp
  from strip_comments_twice [of "''intro  text''"] h
  have f: "strip_comments ''intro  text'' = ''intro  text''" by blast
  have "strip_comments (strip_comments ''intro <!-- note --> text'')
          = strip_comments ''intro <!-- note --> text''"
    unfolding s f ..
  with h s f show ?thesis by blast
qed

text \<open>
  C5 as stated fails: removing a comment can join the two halves of a comment opener, so a
  second pass removes more.
\<close>

theorem strip_comments_twice_counterexample:
  "strip_comments ''<!<!--a-->--b-->'' = ''<!--b-->''
   \<and> strip_comments (strip_comments ''<!<!--a-->--b-->'') = []
   \<and> strip_comments (strip_comments ''<!<!--a-->--b-->'') \<noteq> strip_comments ''<!<!--a-->--b-->''"
  by code_simp

subsection \<open>Finding the marker\<close>

lemma py_find_ge: "- 1 \<le> py_find sub s"
  by (induction s) (auto simp: Let_def)

lemma py_find_none: "py_find sub s = - 1 \<longleftrightarrow> \<not> py_in sub s"
proof (induction s)
  case Nil show ?case by simp
next
  case (Cons c cs)
  have "- 1 \<le> py_find sub cs" by (rule py_find_ge)
  with Cons show ?case by (auto simp: Let_def)
qed

lemma py_find_first:
  "py_find sub s = int i \<Longrightarrow>
   prefix sub (drop i s) \<and> (\<forall>j < i. \<not> prefix sub (drop j s)) \<and> i \<le> length s"
proof (induction s arbitrary: i)
  case Nil
  then show ?case by (auto split: if_splits)
next
  case (Cons c cs)
  show ?case
  proof (cases "prefix sub (c # cs)")
    case True
    with Cons.prems have "i = 0" by simp
    with True show ?thesis by simp
  next
    case False
    have ge: "- 1 \<le> py_find sub cs" by (rule py_find_ge)
    from False Cons.prems have ne: "py_find sub cs \<noteq> - 1" and eq: "py_find sub cs + 1 = int i"
      by (auto simp: Let_def split: if_splits)
    from ge ne eq obtain k where i: "i = Suc k" and k: "py_find sub cs = int k"
      by (cases i) auto
    from Cons.IH [OF k] have IH: "prefix sub (drop k cs)" "\<forall>j < k. \<not> prefix sub (drop j cs)"
      "k \<le> length cs" by auto
    have "\<not> prefix sub (drop j (c # cs))" if "j < i" for j
      using that False IH(2) i by (cases j) auto
    with IH i show ?thesis by simp
  qed
qed

lemma py_find_at:
  assumes "s = pre @ sub @ post" "\<forall>j < length pre. \<not> prefix sub (drop j s)"
  shows "py_find sub s = int (length pre)"
proof -
  from assms(1) have "py_in sub s" unfolding py_in_iff by blast
  then have "py_find sub s \<noteq> - 1" by (simp add: py_find_none)
  with py_find_ge [of sub s] obtain i where i: "py_find sub s = int i"
    by (cases "py_find sub s") auto
  from py_find_first [OF i] have f: "prefix sub (drop i s)" "\<forall>j < i. \<not> prefix sub (drop j s)"
    by auto
  from assms(1) have "prefix sub (drop (length pre) s)" by simp
  with f(2) have "\<not> length pre < i" by blast
  moreover from f(1) assms(2) have "\<not> i < length pre" by blast
  ultimately show ?thesis using i by simp
qed

subsection \<open>The manifest\<close>

lemma is_object_simps [simp]:
  "is_object (JObj d)" "\<not> is_object JNull" "\<not> is_object (JBool b)" "\<not> is_object (JInt i)"
  "\<not> is_object (JFloat f)" "\<not> is_object (JStr s)" "\<not> is_object (JArr xs)"
  by (simp_all add: is_object_def)

lemma is_main_guide_obj [simp]:
  "is_main_guide (JObj d) = (dict_get d ''name'' = Some (JStr ''main_guide''))"
  by (simp add: is_main_guide_def)

lemma filter_swap: "filter P (filter Q ys) = filter Q (filter P ys)"
  by (induction ys) auto

lemma dict_set_other: "k' \<noteq> k \<Longrightarrow> dict_get (dict_set d k v) k' = dict_get d k'"
proof -
  assume ne: "k' \<noteq> k"
  have "map_of (map (\<lambda>(a, b). if a = k then (a, v) else (a, b)) d) k' = map_of d k'"
    using ne by (induction d) auto
  with ne show ?thesis
    by (auto simp: dict_get_def dict_set_def map_add_def split: option.splits)
qed

lemma dict_set_same: "dict_get (dict_set d k v) k = Some v"
proof (cases "k \<in> set (map fst d)")
  case True
  then have "map_of (map (\<lambda>(a, b). if a = k then (a, v) else (a, b)) d) k = Some v"
    by (induction d) auto
  with True show ?thesis by (simp add: dict_get_def dict_set_def del: set_map)
next
  case False
  then have "map_of d k = None" by (simp add: map_of_eq_None_iff)
  with False show ?thesis by (simp add: dict_get_def dict_set_def map_add_def del: set_map)
qed

lemma dict_set_keys:
  "map fst (dict_set d k v) = (if k \<in> set (map fst d) then map fst d else map fst d @ [k])"
proof -
  have "map fst (map (\<lambda>(a, b). if a = k then (a, v) else (a, b)) d) = map fst d"
    by (induction d) auto
  then show ?thesis by (simp add: dict_set_def del: set_map)
qed

lemma main_guide_endpoints_eq:
  "main_guide_endpoints eps =
     (if \<forall>e \<in> set eps. is_object e then Inr (filter is_main_guide eps) else Inl AttributeError)"
proof (induction eps rule: main_guide_endpoints.induct)
  case 1
  show ?case by simp
next
  case (2 d es)
  then show ?case by simp
qed simp_all

lemma first_seen_set: "set (first_seen xs) = set xs"
  by (induction xs) auto

lemma first_seen_distinct: "distinct (first_seen xs)"
  by (induction xs) (auto simp: first_seen_set)

lemma first_seen_filter: "filter Q (first_seen xs) = first_seen (filter Q xs)"
proof (induction xs)
  case Nil
  show ?case by simp
next
  case (Cons x xs)
  show ?case
  proof (cases "Q x")
    case True
    have "filter Q (filter (\<lambda>y. y \<noteq> x) (first_seen xs))
            = filter (\<lambda>y. y \<noteq> x) (first_seen (filter Q xs))"
      by (subst filter_swap) (simp only: Cons.IH)
    with True show ?thesis by (simp del: filter_filter)
  next
    case False
    have "filter Q (filter (\<lambda>y. y \<noteq> x) (first_seen xs))
            = filter (\<lambda>y. y \<noteq> x) (first_seen (filter Q xs))"
      by (subst filter_swap) (simp only: Cons.IH)
    also have "\<dots> = first_seen (filter Q xs)"
      using False by (intro filter_True) (auto simp: first_seen_set)
    finally show ?thesis using False by (simp del: filter_filter)
  qed
qed

lemma group_guides_eq:
  "group_guides gs acc =
     map (\<lambda>(t, xs). (t, xs @ filter (\<lambda>g. g_type g = t) gs)) acc
     @ map (\<lambda>t. (t, filter (\<lambda>g. g_type g = t) gs))
           (first_seen (filter (\<lambda>t. t \<notin> set (map fst acc)) (map g_type gs)))"
proof (induction gs arbitrary: acc)
  case Nil
  show ?case by (simp add: case_prod_unfold)
next
  case (Cons g gs)
  let ?t = "g_type g"
  let ?upd = "\<lambda>(t, xs). if t = ?t then (t, xs @ [g]) else (t, xs)"
  show ?case
  proof (cases "?t \<in> set (map fst acc)")
    case True
    have keys: "map fst (map ?upd acc) = map fst acc" by (induction acc) auto
    have step: "group_guides (g # gs) acc = group_guides gs (map ?upd acc)"
      using True by (simp add: Let_def del: set_map)
    have a: "map (\<lambda>(t, xs). (t, xs @ filter (\<lambda>g. g_type g = t) gs)) (map ?upd acc)
           = map (\<lambda>(t, xs). (t, xs @ filter (\<lambda>g'. g_type g' = t) (g # gs))) acc"
      by (induction acc) auto
    have b: "filter (\<lambda>t. t \<notin> set (map fst acc)) (map g_type (g # gs))
           = filter (\<lambda>t. t \<notin> set (map fst acc)) (map g_type gs)"
      using True by (simp del: set_map)
    have c: "map (\<lambda>t. (t, filter (\<lambda>g'. g_type g' = t) (g # gs)))
               (first_seen (filter (\<lambda>t. t \<notin> set (map fst acc)) (map g_type gs)))
           = map (\<lambda>t. (t, filter (\<lambda>g'. g_type g' = t) gs))
               (first_seen (filter (\<lambda>t. t \<notin> set (map fst acc)) (map g_type gs)))"
      using True by (intro map_cong refl) (auto simp: first_seen_set simp del: set_map)
    show ?thesis
      unfolding step Cons.IH [of "map ?upd acc"] keys a b c ..
  next
    case False
    let ?acc' = "acc @ [(?t, [g])]"
    have same: "map ?upd acc = acc"
      using False by (induction acc) auto
    have step: "group_guides (g # gs) acc = group_guides gs ?acc'"
      using False same by (simp add: Let_def del: set_map)
    have ne: "t \<noteq> ?t" if "(t, xs) \<in> set acc" for t xs
      using that False by force
    have a: "map (\<lambda>(t, xs). (t, xs @ filter (\<lambda>g. g_type g = t) gs)) acc
           = map (\<lambda>(t, xs). (t, xs @ filter (\<lambda>g'. g_type g' = t) (g # gs))) acc"
      by (intro map_cong refl) (auto dest: ne)
    have fs: "first_seen (filter (\<lambda>t. t \<notin> set (map fst acc)) (map g_type (g # gs)))
           = ?t # first_seen (filter (\<lambda>t. t \<notin> set (map fst ?acc')) (map g_type gs))"
    proof -
      have "filter (\<lambda>y. y \<noteq> ?t) (first_seen (filter (\<lambda>t. t \<notin> set (map fst acc)) (map g_type gs)))
              = first_seen (filter (\<lambda>t. t \<notin> set (map fst ?acc')) (map g_type gs))"
        by (simp add: first_seen_filter conj_commute del: set_map)
      with False show ?thesis by (simp del: set_map filter_filter)
    qed
    have c: "map (\<lambda>t. (t, filter (\<lambda>g'. g_type g' = t) (g # gs)))
               (first_seen (filter (\<lambda>t. t \<notin> set (map fst ?acc')) (map g_type gs)))
           = map (\<lambda>t. (t, filter (\<lambda>g'. g_type g' = t) gs))
               (first_seen (filter (\<lambda>t. t \<notin> set (map fst ?acc')) (map g_type gs)))"
      by (intro map_cong refl) (auto simp: first_seen_set simp del: set_map)
    show ?thesis
      unfolding step Cons.IH [of ?acc'] fs a [symmetric]
      using c by simp
  qed
qed

lemma group_guides_empty:
  "group_guides gg [] = map (\<lambda>t. (t, filter (\<lambda>g. g_type g = t) gg)) (first_seen (map g_type gg))"
  by (simp add: group_guides_eq)

lemma guide_endpoints_grouped:
  "guide_endpoints (group_guides gg [])
     = map (\<lambda>g. make_endpoint (py_capitalize (g_type g)) g) (grouped_order gg)"
proof -
  have "map (make_endpoint (py_capitalize t)) (filter (\<lambda>g. g_type g = t) gg)
          = map (\<lambda>g. make_endpoint (py_capitalize (g_type g)) g) (filter (\<lambda>g. g_type g = t) gg)"
    for t by (intro map_cong) auto
  then have h: "map (\<lambda>t. map (make_endpoint (py_capitalize t)) (filter (\<lambda>g. g_type g = t) gg)) ts
      = map (\<lambda>t. map (\<lambda>g. make_endpoint (py_capitalize (g_type g)) g)
                    (filter (\<lambda>g. g_type g = t) gg)) ts" for ts
    by simp
  have "guide_endpoints (group_guides gg [])
          = concat (map (\<lambda>t. map (make_endpoint (py_capitalize t)) (filter (\<lambda>g. g_type g = t) gg))
                        (first_seen (map g_type gg)))"
    by (simp add: guide_endpoints_def group_guides_empty comp_def)
  also have "\<dots> = concat (map (\<lambda>t. map (\<lambda>g. make_endpoint (py_capitalize (g_type g)) g)
                                       (filter (\<lambda>g. g_type g = t) gg))
                               (first_seen (map g_type gg)))"
    by (simp only: h)
  also have "\<dots> = map (\<lambda>g. make_endpoint (py_capitalize (g_type g)) g) (grouped_order gg)"
    by (simp add: grouped_order_def map_concat comp_def)
  finally show ?thesis .
qed

lemma count_one:
  "distinct ts \<Longrightarrow> sum_list (map (\<lambda>t. if a = t then 1 else 0) ts) = (if a \<in> set ts then 1 else (0::nat))"
  by (induction ts) auto

lemma length_by_type:
  "distinct ts \<Longrightarrow> f ` set gs \<subseteq> set ts \<Longrightarrow>
   sum_list (map (\<lambda>t. length (filter (\<lambda>g. f g = t) gs)) ts) = length gs"
proof (induction gs)
  case Nil
  show ?case by simp
next
  case (Cons g gs)
  have "sum_list (map (\<lambda>t. length (filter (\<lambda>g'. f g' = t) (g # gs))) ts)
          = sum_list (map (\<lambda>t. (if f g = t then 1 else 0) + length (filter (\<lambda>g'. f g' = t) gs)) ts)"
    by (intro arg_cong [where f = sum_list] map_cong) auto
  also have "\<dots> = sum_list (map (\<lambda>t. if f g = t then 1 else 0) ts)
                    + sum_list (map (\<lambda>t. length (filter (\<lambda>g'. f g' = t) gs)) ts)"
    by (simp add: sum_list_addf)
  also have "\<dots> = 1 + length gs"
    using Cons by (simp add: count_one)
  finally show ?case by simp
qed

lemma grouped_order_length: "length (grouped_order gg) = length gg"
  using length_by_type [of "first_seen (map g_type gg)" g_type gg]
  by (simp add: grouped_order_def length_concat comp_def first_seen_distinct first_seen_set)

lemma py_split_nonempty: "py_split sep s \<noteq> []"
  by (induction s) (auto split: list.splits)

lemma py_split_plain: "sep \<notin> set s \<Longrightarrow> py_split sep s = [s]"
  by (induction s) auto

lemma py_split_two: "sep \<in> set s \<Longrightarrow> \<exists>a b r. py_split sep s = a # b # r"
proof (induction s)
  case Nil
  then show ?case by simp
next
  case (Cons c cs)
  show ?case
  proof (cases "c = sep")
    case True
    obtain a r where "py_split sep cs = a # r"
      using py_split_nonempty [of sep cs] by (cases "py_split sep cs") auto
    with True show ?thesis by simp
  next
    case False
    with Cons obtain a b r where "py_split sep cs = a # b # r" by auto
    with False show ?thesis by simp
  qed
qed

lemma py_split_last: "last (py_split sep s) = rev (takeWhile (\<lambda>x. x \<noteq> sep) (rev s))"
proof (induction s)
  case Nil
  show ?case by simp
next
  case (Cons c cs)
  show ?case
  proof (cases "c = sep")
    case True
    with Cons py_split_nonempty [of sep cs] show ?thesis
      by (simp add: takeWhile_append)
  next
    case False
    show ?thesis
    proof (cases "sep \<in> set cs")
      case True
      then obtain a b r where s: "py_split sep cs = a # b # r"
        using py_split_two by blast
      with Cons have "last (b # r) = rev (takeWhile (\<lambda>x. x \<noteq> sep) (rev cs))" by simp
      with s False True show ?thesis
        by (auto simp: takeWhile_append)
    next
      case nin: False
      then have "py_split sep cs = [cs]" by (rule py_split_plain)
      with False nin show ?thesis by (simp add: takeWhile_append)
    qed
  qed
qed

lemma last_segment_basename: "last (py_split CHR ''/'' p) = basename p"
  by (simp add: py_split_last basename_def)

lemma build_manifest_frame:
  assumes "build_manifest manifest gg = Inr final"
  shows "\<exists>d d'. manifest = JObj d \<and> final = JObj d'
           \<and> (\<forall>k. k \<noteq> ''endpoints'' \<longrightarrow> dict_get d' k = dict_get d k)
           \<and> map fst d' = (if ''endpoints'' \<in> set (map fst d) then map fst d
                            else map fst d @ [''endpoints''])"
proof (cases manifest)
  case (JObj d)
  with assms obtain v where "final = JObj (dict_set d ''endpoints'' v)"
    by (auto split: sum.splits)
  with JObj show ?thesis
    by (simp add: dict_set_other dict_set_keys del: set_map)
qed (use assms in simp_all)

text \<open>
  C8.  Whenever \<open>generate_mcp_manifest\<close> writes a file, it is \<open>manifest.json\<close>, its
  content is the parsed template object with only the \<open>endpoints\<close> entry replaced: every
  other top-level key keeps its value, and the keys keep their order (\<open>endpoints\<close> is
  added at the end when the template had none).
\<close>

theorem manifest_other_keys_kept:
  assumes "WriteFile p c \<in> set (generate_mcp_manifest tmpl parse wr gg)"
  shows "\<exists>t d d'. tmpl = Some t \<and> parse (strip_line_comments t) = Some (JObj d)
           \<and> p = ''manifest.json'' \<and> c = JsonDoc (JObj d')
           \<and> (\<forall>k. k \<noteq> ''endpoints'' \<longrightarrow> dict_get d' k = dict_get d k)
           \<and> map fst d' = (if ''endpoints'' \<in> set (map fst d) then map fst d
                            else map fst d @ [''endpoints''])"
proof -
  from assms obtain t manifest final where t: "tmpl = Some t"
    and m: "parse (strip_line_comments t) = Some manifest"
    and b: "build_manifest manifest gg = Inr final"
    and pc: "p = ''manifest.json''" "c = JsonDoc final"
    by (auto simp: generate_mcp_manifest_def split: option.splits sum.splits if_splits)
  from build_manifest_frame [OF b] t m pc show ?thesis by auto
qed

theorem manifest_other_keys_kept_witness:
  "WriteFile ''manifest.json''
     (JsonDoc (JObj [(''name'', JStr ''developer-guide''), (''version'', JStr ''1.0''),
                     (''endpoints'', JArr [JObj [(''name'', JStr ''main_guide'')]])]))
     \<in> set (generate_mcp_manifest (Some ''T'')
               (\<lambda>s. if s = ''T''
                    then Some (JObj [(''name'', JStr ''developer-guide''), (''version'', JStr ''1.0''),
                                     (''endpoints'', JArr [JObj [(''name'', JStr ''main_guide'')],
                                                           JObj [(''name'', JStr ''old'')]])])
                    else None)
               (\<lambda>p. True) [])
   \<and> (\<exists>t d d'. Some ''T'' = Some t
          \<and> (if strip_line_comments t = ''T''
               then Some (JObj [(''name'', JStr ''developer-guide''), (''version'', JStr ''1.0''),
                                (''endpoints'', JArr [JObj [(''name'', JStr ''main_guide'')],
                                                      JObj [(''name'', JStr ''old'')]])])
               else None) = Some (JObj d)
          \<and> ''manifest.json'' = ''manifest.json''
          \<and> JsonDoc (JObj [(''name'', JStr ''developer-guide''), (''version'', JStr ''1.0''),
                              (''endpoints'', JArr [JObj [(''name'', JStr ''main_guide'')]])])
                = JsonDoc (JObj d')
          \<and> (\<forall>k. k \<noteq> ''endpoints'' \<longrightarrow> dict_get d' k = dict_get d k)
          \<and> map fst d' = (if ''endpoints'' \<in> set (map fst d) then map fst d
                           else map fst d @ [''endpoints'']))"
proof -
  have h: "WriteFile ''manifest.json''
     (JsonDoc (JObj [(''name'', JStr ''developer-guide''), (''version'', JStr ''1.0''),
                     (''endpoints'', JArr [JObj [(''name'', JStr ''main_guide'')]])]))
     \<in> set (generate_mcp_manifest (Some ''T'')
               (\<lambda>s. if s = ''T''
                    then Some (JObj [(''name'', JStr ''developer-guide''), (''version'', JStr ''1.0''),
                                     (''endpoints'', JArr [JObj [(''name'', JStr ''main_guide'')],
                                                           JObj [(''name'', JStr ''old'')]])])
                    else None)
               (\<lambda>p. True) [])"
    by code_simp
  from manifest_other_keys_kept [OF h] h show ?thesis by blast
qed

text \<open>
  C3 (as amended).  For a template whose \<open>endpoints\<close> entry is a list of objects, the
  manifest keeps exactly the template endpoints named \<open>main_guide\<close>, first and untouched,
  and appends one endpoint per generated guide, with name the last segment of the output
  path with \<open>.json\<close> removed, description \<open>{Type} guide for {name}\<close> with the type
  capitalized, and path \<open>/\<close> followed by the relative output path.  The appended
  endpoints are grouped by guide type: the types in the order of their first guide, and
  within a type the guides in processing order.  There are as many appended endpoints as
  guides, so a template with only \<open>main_guide\<close> and two guides gives three endpoints.
\<close>

theorem build_manifest_endpoints:
  assumes "dict_get d ''endpoints'' = Some (JArr eps)" and "\<forall>e \<in> set eps. is_object e"
  shows "\<exists>d'. build_manifest (JObj d) gg = Inr (JObj d')
           \<and> dict_get d' ''endpoints'' =
               Some (JArr (filter is_main_guide eps
                 @ map (\<lambda>g. JObj [(''name'', JStr (py_replace ''.json'' [] (basename (g_path g)))),
                                  (''description'',
                                     JStr (py_capitalize (g_type g) @ '' guide for '' @ g_name g)),
                                  (''path'', JStr (''/'' @ g_path g))])
                       (grouped_order gg)))
           \<and> length (grouped_order gg) = length gg"
  using assms
  by (simp add: main_guide_endpoints_eq dict_set_same guide_endpoints_grouped make_endpoint_def
        last_segment_basename grouped_order_length)

theorem build_manifest_endpoints_witness:
  "dict_get [(''endpoints'', JArr [JObj [(''name'', JStr ''main_guide''), (''path'', JStr ''/api/guide.json'')]])]
      ''endpoints''
     = Some (JArr [JObj [(''name'', JStr ''main_guide''), (''path'', JStr ''/api/guide.json'')]])
   \<and> is_object (JObj [(''name'', JStr ''main_guide''), (''path'', JStr ''/api/guide.json'')])
   \<and> build_manifest
         (JObj [(''endpoints'',
                   JArr [JObj [(''name'', JStr ''main_guide''), (''path'', JStr ''/api/guide.json'')]])])
         [\<lparr>g_name = ''Python Guide'', g_type = ''language'',
            g_path = ''api/guides/languages/python.json''\<rparr>,
          \<lparr>g_name = ''Make Guide'', g_type = ''pattern'',
            g_path = ''api/guides/patterns/make.json''\<rparr>]
       = Inr (JObj [(''endpoints'',
                 JArr [JObj [(''name'', JStr ''main_guide''), (''path'', JStr ''/api/guide.json'')],
                       JObj [(''name'', JStr ''python''),
                             (''description'', JStr ''Language guide for Python Guide''),
                             (''path'', JStr ''/api/guides/languages/python.json'')],
                       JObj [(''name'', JStr ''make''),
                             (''description'', JStr ''Pattern guide for Make Guide''),
                             (''path'', JStr ''/api/guides/patterns/make.json'')]])])"
proof -
  let ?main = "JObj [(''name'', JStr ''main_guide''), (''path'', JStr ''/api/guide.json'')]"
  let ?d = "[(''endpoints'', JArr [?main])]"
  let ?gg = "[\<lparr>g_name = ''Python Guide'', g_type = ''language'',
                 g_path = ''api/guides/languages/python.json''\<rparr>,
              \<lparr>g_name = ''Make Guide'', g_type = ''pattern'',
                 g_path = ''api/guides/patterns/make.json''\<rparr>]"
  have h1: "dict_get ?d ''endpoints'' = Some (JArr [?main])" by code_simp
  have h2: "\<forall>e \<in> set [?main]. is_object e" by code_simp
  from build_manifest_endpoints [OF h1 h2, of ?gg]
  obtain d' where "build_manifest (JObj ?d) ?gg = Inr (JObj d')" by blast
  moreover have "build_manifest (JObj ?d) ?gg
       = Inr (JObj [(''endpoints'',
                 JArr [?main,
                       JObj [(''name'', JStr ''python''),
                             (''description'', JStr ''Language guide for Python Guide''),
                             (''path'', JStr ''/api/guides/languages/python.json'')],
                       JObj [(''name'', JStr ''make''),
                             (''description'', JStr ''Pattern guide for Make Guide''),
                             (''path'', JStr ''/api/guides/patterns/make.json'')]])])"
    by code_simp
  ultimately show ?thesis using h1 by simp
qed

text \<open>
  C3 as stated fails on the order: with guides processed in the order python (language),
  make (pattern), shell (language), the shell endpoint is appended before the make endpoint.
\<close>

theorem build_manifest_order_counterexample:
  "build_manifest
     (JObj [(''endpoints'', JArr [JObj [(''name'', JStr ''main_guide'')]])])
     [\<lparr>g_name = ''Python'', g_type = ''language'', g_path = ''api/guides/languages/python.json''\<rparr>,
      \<lparr>g_name = ''Make'', g_type = ''pattern'', g_path = ''api/guides/patterns/make.json''\<rparr>,
      \<lparr>g_name = ''Shell'', g_type = ''language'', g_path = ''api/guides/languages/shell.json''\<rparr>]
   = Inr (JObj [(''endpoints'',
            JArr [JObj [(''name'', JStr ''main_guide'')],
                  JObj [(''name'', JStr ''python''),
                        (''description'', JStr ''Language guide for Python''),
                        (''path'', JStr ''/api/guides/languages/python.json'')],
                  JObj [(''name'', JStr ''shell''),
                        (''description'', JStr ''Language guide for Shell''),
                        (''path'', JStr ''/api/guides/languages/shell.json'')],
                  JObj [(''name'', JStr ''make''),
                        (''description'', JStr ''Pattern guide for Make''),
                        (''path'', JStr ''/api/guides/patterns/make.json'')]])])"
  by code_simp

subsection \<open>Output paths\<close>

lemma basename_no_slash: "CHR ''/'' \<notin> set (basename p)"
  by (auto simp: basename_def dest: set_takeWhileD)

lemma py_replace_set: "set (py_replace old new s) \<subseteq> set s \<union> set new"
proof (induction old new s rule: py_replace.induct)
  case (1 old new)
  show ?case by auto
next
  case (2 old new c cs)
  show ?case
  proof (cases "old = []")
    case True
    with 2 show ?thesis by auto
  next
    case False
    show ?thesis
    proof (cases "prefix old (c # cs)")
      case True
      with False 2 have "set (py_replace old new (drop (length old) (c # cs)))
          \<subseteq> set (drop (length old) (c # cs)) \<union> set new" by simp
      moreover have "set (drop (length old) (c # cs)) \<subseteq> set (c # cs)"
        by (rule set_drop_subset)
      ultimately show ?thesis using True False by (subst py_replace.simps) auto
    next
      case np: False
      with False 2 have "set (py_replace old new cs) \<subseteq> set cs \<union> set new" by simp
      with np False show ?thesis by (subst py_replace.simps) auto
    qed
  qed
qed

lemma output_filename_no_slash:
  "CHR ''/'' \<notin> set (py_replace ''.md'' ''.json'' (basename f))"
  using py_replace_set [of "''.md''" "''.json''" "basename f"] basename_no_slash [of f]
  by auto

lemma py_join_plain:
  assumes "a \<noteq> []" "last a \<noteq> CHR ''/''" "CHR ''/'' \<notin> set b"
  shows "py_join a b = a @ ''/'' @ b"
proof -
  from assms(3) have "\<not> prefix ''/'' b" by (auto simp: prefix_def)
  moreover from assms(1,2) have "\<not> suffix ''/'' a" by (auto simp: suffix_def)
  ultimately show ?thesis using assms(1) by (simp add: py_join_def)
qed

lemma infer_guide_type_cases:
  "infer_guide_type p = ''language'' \<or> infer_guide_type p = ''pattern''
   \<or> infer_guide_type p = ''platform'' \<or> infer_guide_type p = ''other''"
  by (simp add: infer_guide_type_def)

lemma subdir_join:
  "t = ''language'' \<or> t = ''pattern'' \<or> t = ''platform'' \<or> t = ''other'' \<Longrightarrow>
   py_join api_guides_dir (t @ ''s'') = ''api/guides/'' @ t @ ''s''"
  by (elim disjE; hypsubst; code_simp)

lemma output_path_eq:
  "py_join (py_join api_guides_dir (infer_guide_type f @ ''s''))
           (py_replace ''.md'' ''.json'' (basename f))
     = ''api/guides/'' @ infer_guide_type f @ ''s/'' @ py_replace ''.md'' ''.json'' (basename f)"
proof -
  let ?t = "infer_guide_type f"
  have d: "py_join api_guides_dir (?t @ ''s'') = ''api/guides/'' @ ?t @ ''s''"
    by (rule subdir_join) (rule infer_guide_type_cases)
  have "py_join (''api/guides/'' @ ?t @ ''s'') (py_replace ''.md'' ''.json'' (basename f))
          = (''api/guides/'' @ ?t @ ''s'') @ ''/'' @ py_replace ''.md'' ''.json'' (basename f)"
    by (rule py_join_plain) (simp_all add: output_filename_no_slash)
  with d show ?thesis by simp
qed

lemma guide_output_path_eq:
  "guide_output_path f
     = ''api/guides/'' @ infer_guide_type f @ ''s/'' @ py_replace ''.md'' ''.json'' (basename f)"
  unfolding guide_output_path_def by (rule output_path_eq)

lemma dirname_join:
  assumes "a \<noteq> []" "last a \<noteq> CHR ''/''" "CHR ''/'' \<notin> set n"
  shows "dirname (a @ ''/'' @ n) = a"
proof -
  from assms(1) obtain ys y where a: "a = ys @ [y]" by (cases a rule: rev_cases) auto
  with assms(2) have y: "y \<noteq> CHR ''/''" by simp
  have "takeWhile (\<lambda>c. c \<noteq> CHR ''/'') (rev n @ CHR ''/'' # rev a) = rev n"
    using assms(3) by (subst takeWhile_append2) auto
  then have b: "basename (a @ ''/'' @ n) = n" by (simp add: basename_def)
  have h: "take (length (a @ ''/'' @ n) - length n) (a @ ''/'' @ n) = a @ ''/''" by simp
  have na: "\<not> list_all (\<lambda>c. c = CHR ''/'') (a @ ''/'')" using a y by simp
  have r: "rev (dropWhile (\<lambda>c. c = CHR ''/'') (rev (a @ ''/''))) = a" using a y by simp
  show ?thesis unfolding dirname_def b h Let_def using na r by simp
qed

lemma output_dirname:
  "dirname (''api/guides/'' @ infer_guide_type f @ ''s/'' @ py_replace ''.md'' ''.json'' (basename f))
     = ''api/guides/'' @ infer_guide_type f @ ''s''"
  using dirname_join [of "''api/guides/'' @ infer_guide_type f @ ''s''"
                         "py_replace ''.md'' ''.json'' (basename f)"]
  by (simp add: output_filename_no_slash)

subsection \<open>The run\<close>

lemma guide_json_path: "py_join api_dir ''guide.json'' = ''api/guide.json''"
  by code_simp

lemma gop_prefix: "prefix ''api/guides/'' (guide_output_path f)"
  by (simp add: guide_output_path_eq)

lemma process_guides_step:
  "process_guides mk wr now ((f, t) # rest) acc =
     (case process_guide_markdown f t of
        None \<Rightarrow>
          (case process_guides mk wr now rest acc of
             (es, r) \<Rightarrow> (Print (ErrorProcessingGuide f) # es, r))
      | Some gd \<Rightarrow>
          if \<not> mk (''api/guides/'' @ infer_guide_type f @ ''s'') then ([], Inl OSError)
          else if \<not> wr (guide_output_path f)
            then ([Makedirs (''api/guides/'' @ infer_guide_type f @ ''s'')], Inl OSError)
          else
            (case process_guides mk wr now rest
                    (acc @ [\<lparr>g_name = gd_title gd, g_type = infer_guide_type f,
                             g_path = guide_output_path f\<rparr>]) of
               (es, r) \<Rightarrow>
                 (Makedirs (''api/guides/'' @ infer_guide_type f @ ''s'')
                    # WriteFile (guide_output_path f)
                        (JsonDoc (specific_guide_json now (basename f) (infer_guide_type f) gd))
                    # Print (Created (guide_output_path f)) # es, r)))"
  by (simp add: Let_def output_path_eq output_dirname [simplified] guide_output_path_eq
           split: option.splits)

lemma process_guide_markdown_none: "process_guide_markdown f t = None \<longleftrightarrow> t = None"
  by (simp add: process_guide_markdown_def Let_def split: option.splits)

lemma written_at_append [simp]: "written_at p (xs @ ys) = written_at p xs @ written_at p ys"
  by (simp add: written_at_def)

lemma written_at_simps [simp]:
  "written_at p [] = []"
  "written_at p (Makedirs d # es) = written_at p es"
  "written_at p (Print m # es) = written_at p es"
  "written_at p (WriteFile q c # es) = (if q = p then c # written_at p es else written_at p es)"
  by (simp_all add: written_at_def)

lemma written_paths_append [simp]: "written_paths (xs @ ys) = written_paths xs @ written_paths ys"
  by (simp add: written_paths_def)

lemma written_paths_simps [simp]:
  "written_paths [] = []"
  "written_paths (Makedirs d # es) = written_paths es"
  "written_paths (Print m # es) = written_paths es"
  "written_paths (WriteFile q c # es) = q # written_paths es"
  by (simp_all add: written_paths_def)

lemma other_writes_append [simp]: "other_writes (xs @ ys) = other_writes xs @ other_writes ys"
  by (simp add: other_writes_def)

lemma other_writes_simps [simp]:
  "other_writes [] = []"
  "other_writes (Makedirs d # es) = other_writes es"
  "other_writes (Print m # es) = other_writes es"
  "other_writes (WriteFile q c # es) =
     (if q \<noteq> ''manifest.json'' then WriteFile q c # other_writes es else other_writes es)"
  by (simp_all add: other_writes_def)

lemma make_dirs_no_writes:
  "written_paths (fst (make_dirs ok ds)) = [] \<and> written_at p (fst (make_dirs ok ds)) = []"
  by (induction ds) (auto split: prod.splits)

lemma make_dirs_all: "\<forall>d. ok d \<Longrightarrow> snd (make_dirs ok ds) = True"
  by (induction ds) (auto split: prod.splits)

lemma process_guides_written_at:
  "\<not> prefix ''api/guides/'' p \<Longrightarrow> written_at p (fst (process_guides mk wr now files acc)) = []"
proof (induction files arbitrary: acc)
  case Nil
  show ?case by simp
next
  case (Cons x files)
  obtain f t where x: "x = (f, t)" by (cases x)
  from Cons.prems gop_prefix [of f] have ne: "guide_output_path f \<noteq> p" by auto
  show ?case unfolding x process_guides_step
    using Cons.IH [OF Cons.prems] ne
    by (auto simp: split_beta split: option.splits)
qed

lemma process_guides_cong:
  "\<forall>p. prefix ''api/guides/'' p \<longrightarrow> wr' p = wr p \<Longrightarrow>
   process_guides mk wr' now files acc = process_guides mk wr now files acc"
proof (induction files arbitrary: acc)
  case Nil
  show ?case by simp
next
  case (Cons x files)
  obtain f t where x: "x = (f, t)" by (cases x)
  from Cons.prems gop_prefix [of f] have eq: "wr' (guide_output_path f) = wr (guide_output_path f)"
    by blast
  show ?case unfolding x process_guides_step eq
    using Cons.IH [OF Cons.prems] by (simp split: option.splits)
qed

lemma process_guides_ok:
  "\<forall>d. mk d \<Longrightarrow> \<forall>p. prefix ''api/guides/'' p \<longrightarrow> wr p \<Longrightarrow>
   \<exists>gg. snd (process_guides mk wr now files acc) = Inr gg"
proof (induction files arbitrary: acc)
  case Nil
  show ?case by simp
next
  case (Cons x files)
  obtain f t where x: "x = (f, t)" by (cases x)
  from Cons.prems gop_prefix [of f] have w: "wr (guide_output_path f)" by blast
  from Cons.prems(1) have m: "mk (''api/guides/'' @ infer_guide_type f @ ''s'')" by blast
  have IH: "\<exists>gg. snd (process_guides mk wr now files acc') = Inr gg" for acc'
    by (rule Cons.IH [OF Cons.prems])
  show ?case unfolding x process_guides_step
    using IH m w
    by (auto simp: split_beta split: option.splits)
qed

lemma process_guides_inr:
  "snd (process_guides mk wr now files acc) = Inr gg \<Longrightarrow> (f, Some raw) \<in> set files \<Longrightarrow>
   wr (guide_output_path f)"
proof (induction files arbitrary: acc)
  case Nil
  then show ?case by simp
next
  case (Cons x files)
  obtain f' t where x: "x = (f', t)" by (cases x)
  from Cons.prems(1) have
    rest: "\<exists>acc'. snd (process_guides mk wr now files acc') = Inr gg"
    and here: "t \<noteq> None \<longrightarrow> wr (guide_output_path f')"
    unfolding x process_guides_step
    by (auto simp: process_guide_markdown_none split_beta split: option.splits if_splits)
  from Cons.prems(2) x consider "f' = f \<and> t = Some raw" | "(f, Some raw) \<in> set files" by auto
  then show ?case
  proof cases
    case 1
    with here show ?thesis by simp
  next
    case 2
    from rest obtain acc' where "snd (process_guides mk wr now files acc') = Inr gg" by blast
    from Cons.IH [OF this 2] show ?thesis .
  qed
qed

lemma manifest_no_other_writes:
  "other_writes (generate_mcp_manifest tmpl parse wr gg) = []
   \<and> (p \<noteq> ''manifest.json'' \<longrightarrow> written_at p (generate_mcp_manifest tmpl parse wr gg) = [])"
  by (simp add: generate_mcp_manifest_def split: option.splits sum.splits)

lemma write_outputs_returned:
  assumes "snd (write_outputs e gc refs files) = Returned"
  shows "\<exists>es1 gg. process_guides (mkdir_ok e) (writable e) (today e) files [] = (es1, Inr gg)
           \<and> writable e ''api/guide.json'' \<and> writable e ''index.html''
           \<and> fst (write_outputs e gc refs files) =
               es1 @ [WriteFile ''api/guide.json'' (JsonDoc (main_guide_json (today e) gc refs)),
                      Print (Created ''api/guide.json''),
                      WriteFile ''index.html'' (IndexHtml (index_rows gg)),
                      Print (Created ''index.html''), Print SuccessJson]
                   @ generate_mcp_manifest (template e) (loads e) (writable e) gg
                   @ [Print GeneratedFiles]"
proof -
  obtain es1 r where pg: "process_guides (mkdir_ok e) (writable e) (today e) files [] = (es1, r)"
    by fastforce
  from assms show ?thesis
    unfolding write_outputs_def pg guide_json_path create_index_html_def
    by (cases r) (auto simp: Let_def split: if_splits)
qed

lemma write_outputs_success:
  assumes "snd (process_guides (mkdir_ok e) (writable e) (today e) files []) = Inr gg"
    and "writable e ''api/guide.json''" and "writable e ''index.html''"
  shows "snd (write_outputs e gc refs files) = Returned"
proof -
  from assms(1) obtain es1 where
    pg: "process_guides (mkdir_ok e) (writable e) (today e) files [] = (es1, Inr gg)"
    by (cases "process_guides (mkdir_ok e) (writable e) (today e) files []") auto
  show ?thesis
    unfolding write_outputs_def pg guide_json_path create_index_html_def
    using assms(2,3) by (simp add: Let_def)
qed

lemma create_guide_json_returned:
  assumes "snd (create_guide_json e) = Returned"
  shows "\<exists>es0 text gc files.
           readme e = Some text \<and> guide_start text = Some gc
           \<and> list_guide_files (py_join (py_join (project_dir e) ''docs'') ''guides'')
                 (guides_dir_state e) = Inr files
           \<and> snd (write_outputs e gc (extract_references gc) files) = Returned
           \<and> written_paths es0 = [] \<and> (\<forall>p. written_at p es0 = [])
           \<and> fst (create_guide_json e) =
               Print (LookingForGuides (py_join (py_join (project_dir e) ''docs'') ''guides''))
                 # es0 @ fst (write_outputs e gc (extract_references gc) files)"
proof -
  let ?dirs = "[api_dir, api_guides_dir] @ map (py_join api_guides_dir) guide_types"
  obtain es0 r where md: "make_dirs (mkdir_ok e) ?dirs = (es0, r)" by fastforce
  from make_dirs_no_writes [of "mkdir_ok e" ?dirs] md
  have nw: "written_paths es0 = []" "\<And>p. written_at p es0 = []" by simp_all
  from assms nw show ?thesis
    unfolding create_guide_json_def Let_def md
    by (auto simp: split_beta split: bool.splits option.splits sum.splits)
qed

text \<open>
  C6.  When the comment-stripped root document does not contain the marker
  \<open>## The Golden Rules\<close>, the run ends with exit code 1 and writes no file.
\<close>

theorem missing_marker_aborts:
  assumes "readme e = Some text"
    and "\<not> py_in ''## The Golden Rules'' (strip_comments text)"
  shows "exit_code (snd (create_guide_json e)) = 1
         \<and> snd (create_guide_json e) \<noteq> Returned
         \<and> written_paths (fst (create_guide_json e)) = []"
proof -
  let ?dirs = "[api_dir, api_guides_dir] @ map (py_join api_guides_dir) guide_types"
  from assms(2) have gs: "guide_start text = None"
    by (simp add: guide_start_def Let_def py_find_none)
  obtain es0 r where md: "make_dirs (mkdir_ok e) ?dirs = (es0, r)" by fastforce
  from make_dirs_no_writes [of "mkdir_ok e" ?dirs] md
  have nw: "written_paths es0 = []" by simp
  show ?thesis
    unfolding create_guide_json_def Let_def md
    using assms(1) gs nw by (cases r) simp_all
qed

theorem missing_marker_aborts_witness:
  "readme (example_env\<lparr>readme := Some ''# Guide <!-- ## The Golden Rules --> rules''\<rparr>)
     = Some ''# Guide <!-- ## The Golden Rules --> rules''
   \<and> \<not> py_in ''## The Golden Rules'' (strip_comments ''# Guide <!-- ## The Golden Rules --> rules'')
   \<and> exit_code (snd (create_guide_json
         (example_env\<lparr>readme := Some ''# Guide <!-- ## The Golden Rules --> rules''\<rparr>))) = 1
   \<and> written_paths (fst (create_guide_json
         (example_env\<lparr>readme := Some ''# Guide <!-- ## The Golden Rules --> rules''\<rparr>))) = []"
proof -
  let ?text = "''# Guide <!-- ## The Golden Rules --> rules''"
  have h1: "readme (example_env\<lparr>readme := Some ?text\<rparr>) = Some ?text" by simp
  have h2: "\<not> py_in ''## The Golden Rules'' (strip_comments ?text)" by code_simp
  from missing_marker_aborts [OF h1 h2] h1 h2 show ?thesis by blast
qed

text \<open>
  C9.  The start of the guide is found by plain substring search in the comment-stripped
  root text: wherever the first occurrence of \<open>## The Golden Rules\<close> stands (also in the
  middle of a line), the guide content is the text from that occurrence on, marker
  included; a run that returns writes \<open>api/guide.json\<close> once, with that content and the
  references extracted from it.
\<close>

theorem guide_starts_at_first_marker:
  assumes "strip_comments text = pre @ ''## The Golden Rules'' @ post"
    and "\<forall>j < length pre. \<not> prefix ''## The Golden Rules'' (drop j (strip_comments text))"
  shows "guide_start text = Some (''## The Golden Rules'' @ post)
         \<and> (readme e = Some text \<and> snd (create_guide_json e) = Returned \<longrightarrow>
              written_at ''api/guide.json'' (fst (create_guide_json e)) =
                [JsonDoc (main_guide_json (today e) (''## The Golden Rules'' @ post)
                            (extract_references (''## The Golden Rules'' @ post)))])"
proof -
  from py_find_at [OF assms] have
    f: "py_find ''## The Golden Rules'' (strip_comments text) = int (length pre)" .
  have gs: "guide_start text = Some (''## The Golden Rules'' @ post)"
    unfolding guide_start_def Let_def f using assms(1) by simp
  have "written_at ''api/guide.json'' (fst (create_guide_json e)) =
          [JsonDoc (main_guide_json (today e) (''## The Golden Rules'' @ post)
                      (extract_references (''## The Golden Rules'' @ post)))]"
    if r: "readme e = Some text" and ret: "snd (create_guide_json e) = Returned"
  proof -
    from create_guide_json_returned [OF ret] r gs obtain es0 files where
      wo: "snd (write_outputs e (''## The Golden Rules'' @ post)
                 (extract_references (''## The Golden Rules'' @ post)) files) = Returned"
      and nw: "\<forall>p. written_at p es0 = []"
      and tr: "fst (create_guide_json e) =
          Print (LookingForGuides (py_join (py_join (project_dir e) ''docs'') ''guides''))
            # es0 @ fst (write_outputs e (''## The Golden Rules'' @ post)
                          (extract_references (''## The Golden Rules'' @ post)) files)"
      by auto
    from write_outputs_returned [OF wo] obtain es1 gg where
      pg: "process_guides (mkdir_ok e) (writable e) (today e) files [] = (es1, Inr gg)"
      and tw: "fst (write_outputs e (''## The Golden Rules'' @ post)
                 (extract_references (''## The Golden Rules'' @ post)) files) =
               es1 @ [WriteFile ''api/guide.json''
                        (JsonDoc (main_guide_json (today e) (''## The Golden Rules'' @ post)
                                   (extract_references (''## The Golden Rules'' @ post)))),
                      Print (Created ''api/guide.json''),
                      WriteFile ''index.html'' (IndexHtml (index_rows gg)),
                      Print (Created ''index.html''), Print SuccessJson]
                   @ generate_mcp_manifest (template e) (loads e) (writable e) gg
                   @ [Print GeneratedFiles]"
      by blast
    have np: "\<not> prefix ''api/guides/'' ''api/guide.json''" by simp
    from process_guides_written_at [OF np, of "mkdir_ok e" "writable e" "today e" files "[]"] pg
    have w1: "written_at ''api/guide.json'' es1 = []" by simp
    have w2: "written_at ''api/guide.json''
                (generate_mcp_manifest (template e) (loads e) (writable e) gg) = []"
      using manifest_no_other_writes [of "template e" "loads e" "writable e" gg "''api/guide.json''"]
      by simp
    show ?thesis unfolding tr tw using nw w1 w2 by simp
  qed
  with gs show ?thesis by blast
qed

theorem guide_starts_at_first_marker_witness:
  "strip_comments ''Intro <!-- x -->, see ## The Golden Rules below''
     = ''Intro , see '' @ ''## The Golden Rules'' @ '' below''
   \<and> guide_start ''Intro <!-- x -->, see ## The Golden Rules below''
       = Some (''## The Golden Rules'' @ '' below'')
   \<and> written_at ''api/guide.json''
         (fst (create_guide_json
            (example_env\<lparr>readme := Some ''Intro <!-- x -->, see ## The Golden Rules below''\<rparr>)))
       = [JsonDoc (main_guide_json ''2025-01-01'' (''## The Golden Rules'' @ '' below'')
                     (extract_references (''## The Golden Rules'' @ '' below'')))]"
proof -
  let ?text = "''Intro <!-- x -->, see ## The Golden Rules below''"
  let ?e = "example_env\<lparr>readme := Some ?text\<rparr>"
  have h1: "strip_comments ?text = ''Intro , see '' @ ''## The Golden Rules'' @ '' below''"
    by code_simp
  have f: "py_find ''## The Golden Rules'' (strip_comments ?text) = int (length ''Intro , see '')"
    by code_simp
  from py_find_first [OF f]
  have h2: "\<forall>j < length ''Intro , see ''.
              \<not> prefix ''## The Golden Rules'' (drop j (strip_comments ?text))"
    by blast
  have r: "readme ?e = Some ?text" by simp
  have ret: "snd (create_guide_json ?e) = Returned" by code_simp
  have t: "today ?e = ''2025-01-01''" by (simp add: example_env_def)
  from guide_starts_at_first_marker [OF h1 h2, of ?e] r ret
  have "guide_start ?text = Some (''## The Golden Rules'' @ '' below'')"
    and "written_at ''api/guide.json'' (fst (create_guide_json ?e)) =
           [JsonDoc (main_guide_json (today ?e) (''## The Golden Rules'' @ '' below'')
                       (extract_references (''## The Golden Rules'' @ '' below'')))]"
    by blast+
  with h1 show ?thesis unfolding t by blast
qed

lemma guide_files_member:
  "(f, RegularFile (Some raw)) \<in> set entries \<Longrightarrow> suffix ''.md'' f \<Longrightarrow>
   (py_join gd f, Some raw) \<in> set (guide_files gd entries)"
  by (force simp: guide_files_def)

lemma write_outputs_manifest_indep:
  "snd (write_outputs (e\<lparr>template := t, loads := l,
                          writable := (writable e)(''manifest.json'' := b)\<rparr>) gc refs files)
     = snd (write_outputs e gc refs files)
   \<and> other_writes (fst (write_outputs (e\<lparr>template := t, loads := l,
                          writable := (writable e)(''manifest.json'' := b)\<rparr>) gc refs files))
     = other_writes (fst (write_outputs e gc refs files))"
proof -
  let ?w = "(writable e)(''manifest.json'' := b)"
  have "\<forall>p. prefix ''api/guides/'' p \<longrightarrow> ?w p = writable e p" by auto
  from process_guides_cong [OF this]
  have pg: "process_guides (mkdir_ok e) ?w (today e) files []
              = process_guides (mkdir_ok e) (writable e) (today e) files []" .
  obtain es1 r where p: "process_guides (mkdir_ok e) (writable e) (today e) files [] = (es1, r)"
    by fastforce
  have m: "other_writes (generate_mcp_manifest tt ll ww gg) = []" for tt ll ww gg
    using manifest_no_other_writes [of tt ll ww gg] by simp
  show ?thesis
    unfolding write_outputs_def guide_json_path create_index_html_def
    by (cases r) (simp_all add: pg p m Let_def)
qed

text \<open>
  C7.  Whatever happens in the manifest step (the template cannot be read, it does not
  parse, the manifest cannot be written), the outcome of the run and every file written
  outside \<open>manifest.json\<close> are the same as if it had succeeded; when the root document
  is readable and holds the marker, the directories can be created, the guides directory
  can be listed and every file other than \<open>manifest.json\<close> can be written, the run
  returns with exit code 0.  A run that returns has been able to write
  \<open>api/guide.json\<close>, \<open>index.html\<close> and the output file of every readable guide: a
  write failure there ends the run with an uncaught error instead.
\<close>

theorem manifest_failures_contained:
  "snd (create_guide_json (e\<lparr>template := t, loads := l,
                              writable := (writable e)(''manifest.json'' := b)\<rparr>))
     = snd (create_guide_json e)
   \<and> other_writes (fst (create_guide_json (e\<lparr>template := t, loads := l,
                              writable := (writable e)(''manifest.json'' := b)\<rparr>)))
     = other_writes (fst (create_guide_json e))
   \<and> (readme e = Some text \<and> py_in ''## The Golden Rules'' (strip_comments text)
        \<and> (\<forall>d. mkdir_ok e d) \<and> guides_dir_state e \<noteq> NotListable
        \<and> (\<forall>p. p \<noteq> ''manifest.json'' \<longrightarrow> writable e p)
       \<longrightarrow> snd (create_guide_json e) = Returned \<and> exit_code (snd (create_guide_json e)) = 0)
   \<and> (snd (create_guide_json e) = Returned
       \<longrightarrow> writable e ''api/guide.json'' \<and> writable e ''index.html''
           \<and> (\<forall>entries f raw.
                 guides_dir_state e = Listing entries
                 \<and> (f, RegularFile (Some raw)) \<in> set entries \<and> suffix ''.md'' f
                 \<longrightarrow> writable e (guide_output_path
                       (py_join (py_join (py_join (project_dir e) ''docs'') ''guides'') f))))"
proof (intro conjI impI allI)
  let ?e' = "e\<lparr>template := t, loads := l, writable := (writable e)(''manifest.json'' := b)\<rparr>"
  let ?dirs = "[api_dir, api_guides_dir] @ map (py_join api_guides_dir) guide_types"
  let ?gd = "py_join (py_join (project_dir e) ''docs'') ''guides''"
  note wi = write_outputs_manifest_indep [where e = e and t = t and l = l and b = b]
  show "snd (create_guide_json ?e') = snd (create_guide_json e)"
    unfolding create_guide_json_def Let_def
    by (simp add: wi split_beta split: bool.split option.split sum.split)
  show "other_writes (fst (create_guide_json ?e')) = other_writes (fst (create_guide_json e))"
    unfolding create_guide_json_def Let_def
    by (simp add: wi split_beta split: bool.split option.split sum.split)
next
  let ?dirs = "[api_dir, api_guides_dir] @ map (py_join api_guides_dir) guide_types"
  let ?gd = "py_join (py_join (project_dir e) ''docs'') ''guides''"
  assume a: "readme e = Some text \<and> py_in ''## The Golden Rules'' (strip_comments text)
        \<and> (\<forall>d. mkdir_ok e d) \<and> guides_dir_state e \<noteq> NotListable
        \<and> (\<forall>p. p \<noteq> ''manifest.json'' \<longrightarrow> writable e p)"
  then have mk: "\<forall>d. mkdir_ok e d" and wr: "\<forall>p. p \<noteq> ''manifest.json'' \<longrightarrow> writable e p"
    by blast+
  obtain es0 r where md0: "make_dirs (mkdir_ok e) ?dirs = (es0, r)" by fastforce
  with make_dirs_all [OF mk, of ?dirs] have md: "make_dirs (mkdir_ok e) ?dirs = (es0, True)"
    by simp
  from a have "py_find ''## The Golden Rules'' (strip_comments text) \<noteq> - 1"
    by (simp add: py_find_none)
  then obtain gc where gs: "guide_start text = Some gc"
    by (simp add: guide_start_def Let_def)
  from a obtain files where lf: "list_guide_files ?gd (guides_dir_state e) = Inr files"
    by (cases "guides_dir_state e") (auto simp: list_guide_files_def)
  have "\<forall>p. prefix ''api/guides/'' p \<longrightarrow> writable e p"
  proof (intro allI impI)
    fix p :: string
    assume "prefix ''api/guides/'' p"
    then have "p \<noteq> ''manifest.json''" by auto
    with wr show "writable e p" by blast
  qed
  from process_guides_ok [OF mk this] obtain gg where
    "snd (process_guides (mkdir_ok e) (writable e) (today e) files []) = Inr gg" by blast
  from write_outputs_success [OF this] wr
  have wo: "snd (write_outputs e gc (extract_references gc) files) = Returned" by simp
  from a md gs lf wo show ret: "snd (create_guide_json e) = Returned"
    unfolding create_guide_json_def Let_def by (simp add: split_beta)
  then show "exit_code (snd (create_guide_json e)) = 0" by simp
next
  assume ret: "snd (create_guide_json e) = Returned"
  from create_guide_json_returned [OF ret] obtain gc files where
    lf: "list_guide_files (py_join (py_join (project_dir e) ''docs'') ''guides'')
           (guides_dir_state e) = Inr files"
    and wo: "snd (write_outputs e gc (extract_references gc) files) = Returned"
    by blast
  from write_outputs_returned [OF wo] obtain es1 gg where
    pg: "process_guides (mkdir_ok e) (writable e) (today e) files [] = (es1, Inr gg)"
    and w: "writable e ''api/guide.json''" "writable e ''index.html''"
    by blast
  from w show "writable e ''api/guide.json''" "writable e ''index.html''" .
  fix entries f raw
  assume b: "guides_dir_state e = Listing entries
             \<and> (f, RegularFile (Some raw)) \<in> set entries \<and> suffix ''.md'' f"
  with lf have files:
    "files = guide_files (py_join (py_join (project_dir e) ''docs'') ''guides'') entries"
    by (simp add: list_guide_files_def)
  from b have "(py_join (py_join (py_join (project_dir e) ''docs'') ''guides'') f, Some raw)
      \<in> set files"
    unfolding files by (intro guide_files_member) auto
  moreover from pg have "snd (process_guides (mkdir_ok e) (writable e) (today e) files []) = Inr gg"
    by simp
  ultimately show "writable e (guide_output_path
      (py_join (py_join (py_join (project_dir e) ''docs'') ''guides'') f))"
    using process_guides_inr by blast
qed

theorem manifest_failures_contained_witness:
  "readme (example_env\<lparr>template := None, writable := (\<lambda>p. p \<noteq> ''manifest.json'')\<rparr>)
     = Some (''intro <!-- c -->'' @ [CHR 0x0A] @ ''## The Golden Rules'' @ [CHR 0x0A]
               @ ''[Python Guide](./docs/guides/python.md)'')
   \<and> snd (create_guide_json
         (example_env\<lparr>template := None, writable := (\<lambda>p. p \<noteq> ''manifest.json'')\<rparr>)) = Returned
   \<and> exit_code (snd (create_guide_json
         (example_env\<lparr>template := None, writable := (\<lambda>p. p \<noteq> ''manifest.json'')\<rparr>))) = 0
   \<and> written_paths (fst (create_guide_json
         (example_env\<lparr>template := None, writable := (\<lambda>p. p \<noteq> ''manifest.json'')\<rparr>)))
       = [''api/guides/languages/python.json'', ''api/guides/others/git.json'',
          ''api/guide.json'', ''index.html'']"
proof -
  let ?e = "example_env\<lparr>template := None, writable := (\<lambda>p. p \<noteq> ''manifest.json'')\<rparr>"
  let ?text = "''intro <!-- c -->'' @ [CHR 0x0A] @ ''## The Golden Rules'' @ [CHR 0x0A]
               @ ''[Python Guide](./docs/guides/python.md)''"
  have h1: "readme ?e = Some ?text" by (simp add: example_env_def)
  have h2: "py_in ''## The Golden Rules'' (strip_comments ?text)" by code_simp
  have h3: "\<forall>d. mkdir_ok ?e d" by (simp add: example_env_def)
  have h4: "guides_dir_state ?e \<noteq> NotListable" by (simp add: example_env_def)
  have h5: "\<forall>p. p \<noteq> ''manifest.json'' \<longrightarrow> writable ?e p" by simp
  from manifest_failures_contained [of "?e" False "\<lambda>s. None" None "?text"] h1 h2 h3 h4 h5
  have r: "snd (create_guide_json ?e) = Returned \<and> exit_code (snd (create_guide_json ?e)) = 0"
    by blast
  have w: "written_paths (fst (create_guide_json ?e))
       = [''api/guides/languages/python.json'', ''api/guides/others/git.json'',
          ''api/guide.json'', ''index.html'']"
    by code_simp
  from h1 r w show ?thesis by blast
qed

text \<open>
  C4.  The run pre-creates \<open>api/guides/other\<close>, but a guide of type \<open>other\<close> is written
  to the subdirectory named by the type followed by \<open>s\<close>, which is \<open>others\<close>: for the
  guide file \<open>git.md\<close> the run creates a fifth subdirectory \<open>api/guides/others\<close> and
  writes \<open>api/guides/others/git.json\<close>; nothing is written under \<open>api/guides/other\<close>.
\<close>

theorem other_guide_written_to_others:
  "infer_guide_type ''/repo/docs/guides/git.md'' = ''other''
   \<and> guide_output_path ''/repo/docs/guides/git.md'' = ''api/guides/others/git.json''
   \<and> made_dirs (fst (create_guide_json example_env))
       = [''api'', ''api/guides'', ''api/guides/languages'', ''api/guides/patterns'',
          ''api/guides/platforms'', ''api/guides/other'',
          ''api/guides/languages'', ''api/guides/others'']
   \<and> written_paths (fst (create_guide_json example_env))
       = [''api/guides/languages/python.json'', ''api/guides/others/git.json'',
          ''api/guide.json'', ''index.html'', ''manifest.json'']"
  by code_simp

text \<open>
  C10.  The conversion of a file name replaces every occurrence of \<open>.md\<close>, not only a
  trailing extension: \<open>a.md.md\<close> gives the output file name and API URL component
  \<open>a.json.json\<close>, and the title fallback removes every \<open>.md\<close> (\<open>a.md.md\<close> gives
  \<open>a\<close>).  In general, for a name split at its occurrences of \<open>.md\<close> into parts without
  \<open>.md\<close>, the result is the parts joined by the replacement.
\<close>

theorem md_replaced_everywhere:
  "py_replace ''.md'' ''.json'' ''a.md.md'' = ''a.json.json''
   \<and> guide_output_path ''/repo/docs/guides/a.md.md'' = ''api/guides/others/a.json.json''
   \<and> map ref_apiUrl (extract_references ''[A](docs/guides/a.md.md)'')
       = [''api/guides/others/a.json.json'']
   \<and> map_option gd_title (process_guide_markdown ''/repo/docs/guides/a.md.md'' (Some ''no heading''))
       = Some ''a''
   \<and> ((\<forall>p \<in> set parts. \<not> py_in ''.md'' p) \<longrightarrow>
        py_replace ''.md'' new (join_with ''.md'' parts) = join_with new parts)"
proof -
  have a: "py_replace ''.md'' ''.json'' ''a.md.md'' = ''a.json.json''" by code_simp
  have b: "guide_output_path ''/repo/docs/guides/a.md.md'' = ''api/guides/others/a.json.json''"
    by code_simp
  have c: "map ref_apiUrl (extract_references ''[A](docs/guides/a.md.md)'')
       = [''api/guides/others/a.json.json'']" by code_simp
  have d: "map_option gd_title (process_guide_markdown ''/repo/docs/guides/a.md.md'' (Some ''no heading''))
       = Some ''a''" by code_simp
  from a b c d py_replace_md_join [of parts new] show ?thesis by blast
qed

theorem md_replaced_everywhere_witness:
  "\<not> py_in ''.md'' ''a'' \<and> \<not> py_in ''.md'' []
   \<and> join_with ''.md'' [''a'', [], []] = ''a.md.md''
   \<and> join_with ''.json'' [''a'', [], []] = ''a.json.json''
   \<and> py_replace ''.md'' ''.json'' (join_with ''.md'' [''a'', [], []])
       = join_with ''.json'' [''a'', [], []]"
proof -
  have h: "\<not> py_in ''.md'' ''a'' \<and> \<not> py_in ''.md'' []" by code_simp
  then have "\<forall>p \<in> set [''a'', [], []]. \<not> py_in ''.md'' p" by simp
  with md_replaced_everywhere [of "[''a'', [], []]" "''.json''"]
  have "py_replace ''.md'' ''.json'' (join_with ''.md'' [''a'', [], []])
       = join_with ''.json'' [''a'', [], []]" by blast
  moreover have "join_with ''.md'' [''a'', [], []] = ''a.md.md''" by code_simp
  moreover have "join_with ''.json'' [''a'', [], []] = ''a.json.json''" by code_simp
  ultimately show ?thesis using h by blast
qed

end
